theory Spec2Isabelle
  imports Complex_Main "HOL-Library.AList"
begin

section \<open>Shared vocabulary\<close>

text \<open>
  Objects are mutable and shared by reference in the source, so every class instance lives
  in a store and is named by its identity. DOM elements are named the same way.
\<close>

type_synonym node = nat
type_synonym item = nat
type_synonym handler = nat

datatype error = TypeError | NotFoundError | Error string

text \<open>The members of the \<open>KeyCodes\<close> enumeration that the sources mention.\<close>

datatype KeyCodes =
    ENTER | SPACE | UP | DOWN | PAGE_UP | HOME | PAGE_DOWN | END
  | ESC | DELETE | BACKSPACE | C | X | V | Z | Y
  | CTRL | ALT | META | SHIFT
  | OtherKey nat

record Coordinate =
  x :: real
  y :: real

text \<open>
  What the model keeps of a DOM element: its \<open>id\<close>, its class list and the
  \<open>aria-activedescendant\<close> state.
\<close>

record Element =
  ident :: string
  classList :: "string set"
  activedescendant :: "string option"

text \<open>Reading a JavaScript array: an index outside the array yields \<open>undefined\<close>.\<close>

definition array_get :: "'a list \<Rightarrow> int \<Rightarrow> 'a option" where
  "array_get xs i = (if 0 \<le> i \<and> i < int (length xs) then Some (xs ! nat i) else None)"

text \<open>\<open>Array.prototype.indexOf\<close>: the first position of the value, or \<open>-1\<close>.\<close>

fun indexOf :: "'a list \<Rightarrow> 'a \<Rightarrow> int" where
  "indexOf [] v = -1"
| "indexOf (u # us) v =
     (if u = v then 0 else (let r = indexOf us v in if r < 0 then -1 else r + 1))"

section \<open>MenuItem\<close>

record MenuItem =
  actionHandler :: "handler option"
  element :: "node option"
  rightToLeft :: bool
  highlight :: bool
  checkable :: bool
  checked :: bool
  enabled :: bool

text \<open>The field initialisers of the class.\<close>

definition MenuItem_new :: MenuItem where
  "MenuItem_new =
     \<lparr>actionHandler = None, element = None, rightToLeft = False, highlight = False,
      checkable = False, checked = False, enabled = True\<rparr>"

section \<open>Menu\<close>

record Menu =
  menuItems :: "item list"
  openingCoords :: "Coordinate option"
  highlightedItem :: "item option"
  rootElement :: "node option"

text \<open>
  The constructor state of a \<open>Menu\<close>; \<open>rootElement\<close> is the field \<open>element\<close> of
  the class.
\<close>

definition Menu_new :: Menu where
  "Menu_new = \<lparr>menuItems = [], openingCoords = None, highlightedItem = None, rootElement = None\<rparr>"

text \<open>
  The whole state the menu code reads and writes: the \<open>MenuItem\<close> objects, the DOM
  elements, the menu itself, and the calls made so far to action handlers (a handler is
  client code; the model records the call and the item passed to it).
\<close>

record world =
  items :: "item \<Rightarrow> MenuItem"
  elems :: "node \<Rightarrow> Element"
  menu :: Menu
  invoked :: "(handler \<times> item) list"

definition addClass :: "node \<Rightarrow> string \<Rightarrow> world \<Rightarrow> world" where
  "addClass n c w = w\<lparr>elems := (elems w)(n := (elems w n)\<lparr>classList := insert c (classList (elems w n))\<rparr>)\<rparr>"

definition removeClass :: "node \<Rightarrow> string \<Rightarrow> world \<Rightarrow> world" where
  "removeClass n c w = w\<lparr>elems := (elems w)(n := (elems w n)\<lparr>classList := classList (elems w n) - {c}\<rparr>)\<rparr>"

text \<open>\<open>MenuItem.setHighlighted\<close>: the flag is written first, then the two guards.\<close>

definition MenuItem_setHighlighted :: "item \<Rightarrow> bool \<Rightarrow> world \<Rightarrow> world" where
  "MenuItem_setHighlighted i b w =
     (let w1 = w\<lparr>items := (items w)(i := (items w i)\<lparr>highlight := b\<rparr>)\<rparr> in
      case element (items w1 i) of
        None \<Rightarrow> w1
      | Some el \<Rightarrow>
          if \<not> enabled (items w1 i) then w1
          else if b then addClass el ''blocklyMenuItemHighlight'' w1
          else removeClass el ''blocklyMenuItemHighlight'' w1)"

definition isEnabled :: "item \<Rightarrow> world \<Rightarrow> bool" where
  "isEnabled i w = enabled (items w i)"

text \<open>\<open>MenuItem.performAction\<close>: nothing when disabled, nothing when no handler is bound.\<close>

definition performAction :: "item \<Rightarrow> world \<Rightarrow> world" where
  "performAction i w =
     (if \<not> enabled (items w i) then w
      else case actionHandler (items w i) of
             None \<Rightarrow> w
           | Some h \<Rightarrow> w\<lparr>invoked := invoked w @ [(h, i)]\<rparr>)"

definition addChild :: "item \<Rightarrow> world \<Rightarrow> world" where
  "addChild i w = w\<lparr>menu := (menu w)\<lparr>menuItems := menuItems (menu w) @ [i]\<rparr>\<rparr>"

definition isEmpty :: "world \<Rightarrow> bool" where
  "isEmpty w = (length (menuItems (menu w)) < 1)"

text \<open>
  \<open>Menu.getMenuItem\<close>. The argument is the element the walk starts at together with its
  chain of \<open>parentElement\<close>s, nearest first; the chain ends where \<open>parentElement\<close> is
  \<open>null\<close>.
\<close>

fun getMenuItem :: "world \<Rightarrow> node list \<Rightarrow> item option" where
  "getMenuItem w [] = None"
| "getMenuItem w (current # parents) =
     (if Some current = rootElement (menu w) then None
      else if ''blocklyMenuItem'' \<in> classList (elems w current) then
        (case find (\<lambda>i. element (items w i) = Some current) (menuItems (menu w)) of
           Some i \<Rightarrow> Some i
         | None \<Rightarrow> getMenuItem w parents)
      else getMenuItem w parents)"

text \<open>
  \<open>Menu.setHighlighted\<close>. After the two flags are written the source reads the item's
  element (\<open>getId\<close> dereferences it) and hands it with the menu's root to
  \<open>scrollIntoContainerView\<close> and \<open>aria.setState\<close>; with either handle \<open>null\<close> that is a
  \<open>TypeError\<close>, raised after the writes. Scrolling moves no state of the model.
\<close>

definition Menu_setHighlighted :: "item option \<Rightarrow> world \<Rightarrow> error option \<times> world" where
  "Menu_setHighlighted it w =
     (let w1 = (case highlightedItem (menu w) of
                  None \<Rightarrow> w
                | Some h \<Rightarrow> MenuItem_setHighlighted h False w);
          w2 = w1\<lparr>menu := (menu w1)\<lparr>highlightedItem := None\<rparr>\<rparr>
      in case it of
           None \<Rightarrow> (None, w2)
         | Some i \<Rightarrow>
             (let w3 = MenuItem_setHighlighted i True w2;
                  w4 = w3\<lparr>menu := (menu w3)\<lparr>highlightedItem := Some i\<rparr>\<rparr>
              in case (rootElement (menu w4), element (items w4 i)) of
                   (Some r, Some el) \<Rightarrow>
                     (None, w4\<lparr>elems := (elems w4)
                        (r := (elems w4 r)\<lparr>activedescendant := Some (ident (elems w4 el))\<rparr>)\<rparr>)
                 | _ \<Rightarrow> (Some TypeError, w4)))"

text \<open>
  The loop of \<open>Menu.highlightHelper\<close>. With a step of \<open>0\<close> on a disabled item the source
  never leaves the loop, so the result is optional: \<open>None\<close> is a run that does not end.
\<close>

partial_function (option) highlightLoop ::
  "int \<Rightarrow> int \<Rightarrow> world \<Rightarrow> (error option \<times> world) option" where
  "highlightLoop index delta w =
     (case array_get (menuItems (menu w)) index of
        None \<Rightarrow> Some (None, w)
      | Some menuItem \<Rightarrow>
          if isEnabled menuItem w then Some (Menu_setHighlighted (Some menuItem) w)
          else highlightLoop (index + delta) delta w)"

declare highlightLoop.simps [code]

definition highlightHelper ::
  "int \<Rightarrow> int \<Rightarrow> world \<Rightarrow> (error option \<times> world) option" where
  "highlightHelper startIndex delta w = highlightLoop (startIndex + delta) delta w"

definition highlightNext :: "world \<Rightarrow> (error option \<times> world) option" where
  "highlightNext w =
     (let index = (case highlightedItem (menu w) of
                     None \<Rightarrow> -1
                   | Some h \<Rightarrow> indexOf (menuItems (menu w)) h)
      in highlightHelper index 1 w)"

definition highlightPrevious :: "world \<Rightarrow> (error option \<times> world) option" where
  "highlightPrevious w =
     (let index = (case highlightedItem (menu w) of
                     None \<Rightarrow> -1
                   | Some h \<Rightarrow> indexOf (menuItems (menu w)) h);
          index = (if index < 0 then int (length (menuItems (menu w))) else index)
      in highlightHelper index (-1) w)"

definition highlightFirst :: "world \<Rightarrow> (error option \<times> world) option" where
  "highlightFirst w = highlightHelper (-1) 1 w"

definition highlightLast :: "world \<Rightarrow> (error option \<times> world) option" where
  "highlightLast w = highlightHelper (int (length (menuItems (menu w)))) (-1) w"

text \<open>
  Pointer events. \<open>target\<close> is the event's target with its chain of parents, as
  \<open>getMenuItem\<close> takes it; \<open>clientX\<close> is \<open>None\<close> when it is not a number.
\<close>

record PointerEvent =
  target :: "node list"
  clientX :: "real option"
  clientY :: real

definition handleMouseOver :: "PointerEvent \<Rightarrow> world \<Rightarrow> error option \<times> world" where
  "handleMouseOver event w =
     (case getMenuItem w (target event) of
        None \<Rightarrow> (None, w)
      | Some menuItem \<Rightarrow>
          if isEnabled menuItem w then
            (if highlightedItem (menu w) \<noteq> Some menuItem
             then Menu_setHighlighted (Some menuItem) w
             else (None, w))
          else Menu_setHighlighted None w)"

text \<open>
  \<open>Menu.handleClick\<close>. \<open>Coordinate.distance\<close> is not part of the sources at hand and is
  taken as the parameter \<open>distance\<close>.
\<close>

definition handleClick ::
  "(Coordinate \<Rightarrow> Coordinate \<Rightarrow> real) \<Rightarrow> PointerEvent \<Rightarrow> world \<Rightarrow> world" where
  "handleClick distance event w =
     (let oc = openingCoords (menu w);
          w1 = w\<lparr>menu := (menu w)\<lparr>openingCoords := None\<rparr>\<rparr>;
          suppressed =
            (case (oc, clientX event) of
               (Some opening, Some cx) \<Rightarrow>
                 distance opening \<lparr>x = cx, y = clientY event\<rparr> < 1
             | _ \<Rightarrow> False)
      in if suppressed then w1
         else case getMenuItem w1 (target event) of
                None \<Rightarrow> w1
              | Some i \<Rightarrow> performAction i w1)"

text \<open>\<open>Menu.blur\<close> and \<open>Menu.focus\<close> toggle the class \<open>blocklyFocused\<close> on the root.\<close>

definition focus :: "world \<Rightarrow> world" where
  "focus w = (case rootElement (menu w) of None \<Rightarrow> w | Some r \<Rightarrow> addClass r ''blocklyFocused'' w)"

definition blur :: "world \<Rightarrow> world" where
  "blur w = (case rootElement (menu w) of None \<Rightarrow> w | Some r \<Rightarrow> removeClass r ''blocklyFocused'' w)"

definition handleMouseEnter :: "world \<Rightarrow> world" where
  "handleMouseEnter w = focus w"

definition handleMouseLeave :: "world \<Rightarrow> error option \<times> world" where
  "handleMouseLeave w =
     (case rootElement (menu w) of
        None \<Rightarrow> (None, w)
      | Some r \<Rightarrow> Menu_setHighlighted None (blur w))"

record KeyboardEvent =
  shiftKey :: bool
  ctrlKey :: bool
  metaKey :: bool
  altKey :: bool
  keyCode :: KeyCodes
  propagationStopped :: bool
  defaultPrevented :: bool

text \<open>
  The tail of \<open>Menu.handleKeyEvent\<close> after a \<open>break\<close>: the event is marked with
  \<open>stopPropagation\<close> and \<open>preventDefault\<close>, unless the case threw before.
\<close>

definition markHandled ::
  "KeyboardEvent \<Rightarrow> (error option \<times> world) option \<Rightarrow>
   (error option \<times> world \<times> KeyboardEvent) option" where
  "markHandled event r =
     (case r of
        None \<Rightarrow> None
      | Some (Some e, w) \<Rightarrow> Some (Some e, w, event)
      | Some (None, w) \<Rightarrow>
          Some (None, w, event\<lparr>propagationStopped := True, defaultPrevented := True\<rparr>))"

definition handleKeyEvent ::
  "KeyboardEvent \<Rightarrow> world \<Rightarrow> (error option \<times> world \<times> KeyboardEvent) option" where
  "handleKeyEvent event w =
     (if isEmpty w then Some (None, w, event)
      else if shiftKey event then Some (None, w, event)
      else if ctrlKey event then Some (None, w, event)
      else if metaKey event then Some (None, w, event)
      else if altKey event then Some (None, w, event)
      else if keyCode event = ENTER \<or> keyCode event = SPACE then
        markHandled event
          (Some (None, case highlightedItem (menu w) of
                         None \<Rightarrow> w
                       | Some h \<Rightarrow> performAction h w))
      else if keyCode event = UP then markHandled event (highlightPrevious w)
      else if keyCode event = DOWN then markHandled event (highlightNext w)
      else if keyCode event = PAGE_UP \<or> keyCode event = HOME then
        markHandled event (highlightFirst w)
      else if keyCode event = PAGE_DOWN \<or> keyCode event = END then
        markHandled event (highlightLast w)
      else Some (None, w, event))"

section \<open>Sequences of menu operations and the highlight invariant\<close>

text \<open>
  The operations that move the highlight, as a client or the event handlers issue them.
  An operation that throws leaves the state it had reached; the run goes on from there,
  as the next event would.
\<close>

datatype MenuOp =
    SetHighlighted "item option"
  | HighlightNext
  | HighlightPrevious
  | HighlightFirst
  | HighlightLast
  | PointerOver PointerEvent

fun menuStep :: "MenuOp \<Rightarrow> world \<Rightarrow> (error option \<times> world) option" where
  "menuStep (SetHighlighted it) w = Some (Menu_setHighlighted it w)"
| "menuStep HighlightNext w = highlightNext w"
| "menuStep HighlightPrevious w = highlightPrevious w"
| "menuStep HighlightFirst w = highlightFirst w"
| "menuStep HighlightLast w = highlightLast w"
| "menuStep (PointerOver event) w = Some (handleMouseOver event w)"

fun menuRun :: "MenuOp list \<Rightarrow> world \<Rightarrow> world option" where
  "menuRun [] w = Some w"
| "menuRun (op # ops) w =
     (case menuStep op w of None \<Rightarrow> None | Some (e, w') \<Rightarrow> menuRun ops w')"

text \<open>
  The invariant of the data model: an item of the menu carries the highlight flag exactly
  when it is the menu's \<open>highlightedItem\<close>.
\<close>

definition highlight_inv :: "world \<Rightarrow> bool" where
  "highlight_inv w =
     (\<forall>i \<in> set (menuItems (menu w)).
        highlight (items w i) = (highlightedItem (menu w) = Some i))"

text \<open>The test of \<open>handleClick\<close> that decides whether the click is dropped.\<close>

definition click_suppressed ::
  "(Coordinate \<Rightarrow> Coordinate \<Rightarrow> real) \<Rightarrow> PointerEvent \<Rightarrow> world \<Rightarrow> bool" where
  "click_suppressed distance event w =
     (case (openingCoords (menu w), clientX event) of
        (Some opening, Some cx) \<Rightarrow> distance opening \<lparr>x = cx, y = clientY event\<rparr> < 1
      | _ \<Rightarrow> False)"

section \<open>A rendered menu used in the examples\<close>

text \<open>
  Modelled from the spec: \<open>Coordinate.distance\<close> (in \<open>utils/coordinate.js\<close>,
  which is not among the sources) as the Euclidean distance of the two points. It is used
  in the examples only; \<open>handleClick\<close> takes the distance as a parameter.
\<close>

definition Coordinate_distance :: "Coordinate \<Rightarrow> Coordinate \<Rightarrow> real" where
  "Coordinate_distance a b = sqrt ((x a - x b) * (x a - x b) + (y a - y b) * (y a - y b))"

text \<open>
  Four items as \<open>render\<close> leaves them, the second and the fourth disabled; node
  \<open>1\<close> is the menu's root and node \<open>20\<close> the content element inside the first item.
\<close>

definition demoItems :: "item \<Rightarrow> MenuItem" where
  "demoItems = (\<lambda>_. MenuItem_new)
     (0 := MenuItem_new\<lparr>actionHandler := Some 100, element := Some 10\<rparr>,
      1 := MenuItem_new\<lparr>actionHandler := Some 101, element := Some 11, enabled := False\<rparr>,
      2 := MenuItem_new\<lparr>actionHandler := Some 102, element := Some 12\<rparr>,
      3 := MenuItem_new\<lparr>element := Some 13, enabled := False\<rparr>)"

definition demoDom :: "node \<Rightarrow> Element" where
  "demoDom = (\<lambda>_. \<lparr>ident = [], classList = {}, activedescendant = None\<rparr>)
     (1 := \<lparr>ident = [], classList = {''blocklyMenu'', ''blocklyNonSelectable''},
            activedescendant = None\<rparr>,
      10 := \<lparr>ident = ''blockly-a'', classList = {''blocklyMenuItem''},
             activedescendant = None\<rparr>,
      11 := \<lparr>ident = ''blockly-b'',
             classList = {''blocklyMenuItem'', ''blocklyMenuItemDisabled''},
             activedescendant = None\<rparr>,
      12 := \<lparr>ident = ''blockly-c'', classList = {''blocklyMenuItem''},
             activedescendant = None\<rparr>,
      13 := \<lparr>ident = ''blockly-d'',
             classList = {''blocklyMenuItem'', ''blocklyMenuItemDisabled''},
             activedescendant = None\<rparr>,
      20 := \<lparr>ident = [], classList = {''blocklyMenuItemContent''},
             activedescendant = None\<rparr>)"

definition demoMenu :: world where
  "demoMenu =
     \<lparr>items = demoItems, elems = demoDom,
      menu = \<lparr>menuItems = [0, 1, 2, 3], openingCoords = None, highlightedItem = None,
              rootElement = Some 1\<rparr>,
      invoked = []\<rparr>"

definition demoAtFirst :: world where
  "demoAtFirst = snd (Menu_setHighlighted (Some 0) demoMenu)"

definition demoOpened :: world where
  "demoOpened = demoMenu\<lparr>menu := (menu demoMenu)\<lparr>openingCoords := Some \<lparr>x = 5, y = 7\<rparr>\<rparr>\<rparr>"

definition clickNear :: PointerEvent where
  "clickNear = \<lparr>target = [20, 10, 1], clientX = Some 5.5, clientY = 7\<rparr>"

definition clickFar :: PointerEvent where
  "clickFar = \<lparr>target = [20, 10, 1], clientX = Some 6, clientY = 7\<rparr>"

text \<open>
  Clicks away from the opening position: on the element of the third item, on that of the
  disabled second item, and on the menu's root.
\<close>

definition clickThird :: PointerEvent where
  "clickThird = \<lparr>target = [12, 1], clientX = Some 40, clientY = 7\<rparr>"

definition clickDisabled :: PointerEvent where
  "clickDisabled = \<lparr>target = [11, 1], clientX = Some 40, clientY = 7\<rparr>"

definition clickBorder :: PointerEvent where
  "clickBorder = \<lparr>target = [1], clientX = Some 40, clientY = 7\<rparr>"

definition keyDown :: KeyboardEvent where
  "keyDown = \<lparr>shiftKey = False, ctrlKey = False, metaKey = False, altKey = False,
     keyCode = DOWN, propagationStopped = False, defaultPrevented = False\<rparr>"

section \<open>MarkerManager\<close>

text \<open>
  Markers and cursors are objects named by their identity. Two collaborators are outside
  the sources: the renderer's drawer, whose \<open>createDom\<close> returns the SVG node that the
  operations below take as the argument \<open>svg\<close>, and the disposal of a marker or of its
  drawer, of which the model keeps the call (\<open>disposals\<close>) and the nodes it takes out of
  the document (the parameter \<open>detached\<close>). \<open>blockCanvas\<close> is the list of children of
  \<open>workspace.getBlockCanvas()\<close>, or \<open>None\<close> where that returns \<open>null\<close>.
\<close>

type_synonym marker = nat

text \<open>
  The fields \<open>cursor_\<close>, \<open>markerSvg_\<close> and \<open>cursorSvg_\<close> of the class are written with
  a prime, since a name cannot end in an underscore here.
\<close>

record MarkerManager =
  cursor' :: "marker option"
  markerSvg' :: "node option"
  cursorSvg' :: "node option"
  markers :: "(string \<times> marker) list"

datatype disposal = MarkerDisposed marker | DrawerDisposed marker

record workspace =
  manager :: MarkerManager
  blockCanvas :: "node list option"
  hasDrawer :: "marker \<Rightarrow> bool"
  disposals :: "disposal list"

definition MarkerManager_new :: MarkerManager where
  "MarkerManager_new = \<lparr>cursor' = None, markerSvg' = None, cursorSvg' = None, markers = []\<rparr>"

text \<open>
  \<open>Node.appendChild\<close> and \<open>Node.insertBefore\<close> on the list of children: a node that
  is already a child is moved, and \<open>insertBefore\<close> throws \<open>NotFoundError\<close> when the
  reference node is not a child.
\<close>

definition appendChild :: "node \<Rightarrow> node list \<Rightarrow> node list" where
  "appendChild n children = removeAll n children @ [n]"

definition insertBefore :: "node \<Rightarrow> node \<Rightarrow> node list \<Rightarrow> error + node list" where
  "insertBefore n reference children =
     (if reference \<notin> set children then Inl NotFoundError
      else if n = reference then Inr children
      else Inr (takeWhile (\<lambda>k. k \<noteq> reference) (removeAll n children) @
                n # dropWhile (\<lambda>k. k \<noteq> reference) (removeAll n children)))"

definition detach :: "node list \<Rightarrow> workspace \<Rightarrow> workspace" where
  "detach ns s = s\<lparr>blockCanvas := map_option (filter (\<lambda>n. n \<notin> set ns)) (blockCanvas s)\<rparr>"

text \<open>The text of the error of \<open>unregisterMarker\<close>, a template over the ID.\<close>

definition unregisterMessage :: "string \<Rightarrow> string" where
  "unregisterMessage id' =
     ''Marker with ID '' @ id' @ '' does not exist.'' @ [CHR 0x0A] @ replicate 17 CHR '' '' @
     ''Can only unregister markers that exist.''"

definition unregisterMarker ::
  "(marker \<Rightarrow> node list) \<Rightarrow> string \<Rightarrow> workspace \<Rightarrow> error option \<times> workspace" where
  "unregisterMarker detached id' s =
     (case map_of (markers (manager s)) id' of
        None \<Rightarrow> (Some (Error (unregisterMessage id')), s)
      | Some marker \<Rightarrow>
          (let s1 = detach (detached marker) (s\<lparr>disposals := disposals s @ [MarkerDisposed marker]\<rparr>)
           in (None, s1\<lparr>manager := (manager s1)
                 \<lparr>markers := AList.delete id' (markers (manager s1))\<rparr>\<rparr>)))"

definition getCursor :: "workspace \<Rightarrow> marker option" where
  "getCursor s = cursor' (manager s)"

definition getMarker :: "string \<Rightarrow> workspace \<Rightarrow> marker option" where
  "getMarker id' s = map_of (markers (manager s)) id'"

definition setCursorSvg :: "node option \<Rightarrow> workspace \<Rightarrow> workspace" where
  "setCursorSvg cursor s =
     (let s1 = (case cursor of
                  None \<Rightarrow> s
                | Some c \<Rightarrow>
                    (case blockCanvas s of
                       None \<Rightarrow> s
                     | Some children \<Rightarrow> s\<lparr>blockCanvas := Some (appendChild c children)\<rparr>))
      in s1\<lparr>manager := (manager s1)\<lparr>cursorSvg' := cursor\<rparr>\<rparr>)"

definition setMarkerSvg :: "node option \<Rightarrow> workspace \<Rightarrow> error option \<times> workspace" where
  "setMarkerSvg marker s =
     (case marker of
        None \<Rightarrow> (None, s\<lparr>manager := (manager s)\<lparr>markerSvg' := None\<rparr>\<rparr>)
      | Some m \<Rightarrow>
          (case blockCanvas s of
             None \<Rightarrow> (None, s)
           | Some children \<Rightarrow>
               (case cursorSvg' (manager s) of
                  Some c \<Rightarrow>
                    (case insertBefore m c children of
                       Inl e \<Rightarrow> (Some e, s)
                     | Inr children' \<Rightarrow> (None, s\<lparr>blockCanvas := Some children'\<rparr>))
                | None \<Rightarrow> (None, s\<lparr>blockCanvas := Some (appendChild m children)\<rparr>))))"

definition registerMarker ::
  "(marker \<Rightarrow> node list) \<Rightarrow> string \<Rightarrow> marker \<Rightarrow> node \<Rightarrow> workspace \<Rightarrow>
   error option \<times> workspace" where
  "registerMarker detached id' marker svg s =
     (case (if map_of (markers (manager s)) id' \<noteq> None then unregisterMarker detached id' s
            else (None, s)) of
        (Some e, s1) \<Rightarrow> (Some e, s1)
      | (None, s1) \<Rightarrow>
          (let s2 = s1\<lparr>hasDrawer := (hasDrawer s1)(marker := True)\<rparr> in
           case setMarkerSvg (Some svg) s2 of
             (Some e, s3) \<Rightarrow> (Some e, s3)
           | (None, s3) \<Rightarrow>
               (None, s3\<lparr>manager := (manager s3)
                  \<lparr>markers := AList.update id' marker (markers (manager s3))\<rparr>\<rparr>)))"

text \<open>
  \<open>setCursor\<close>: the previous cursor's drawer is disposed when it has one; the guard on a
  \<open>null\<close> cursor is kept, so the argument is optional.
\<close>

definition setCursor ::
  "(marker \<Rightarrow> node list) \<Rightarrow> marker option \<Rightarrow> node \<Rightarrow> workspace \<Rightarrow> workspace" where
  "setCursor detached cursor svg s =
     (let s1 = (case cursor' (manager s) of
                  None \<Rightarrow> s
                | Some old \<Rightarrow>
                    if hasDrawer s old
                    then detach (detached old) (s\<lparr>disposals := disposals s @ [DrawerDisposed old]\<rparr>)
                    else s);
          s2 = s1\<lparr>manager := (manager s1)\<lparr>cursor' := cursor\<rparr>\<rparr>
      in case cursor of
           None \<Rightarrow> s2
         | Some c \<Rightarrow> setCursorSvg (Some svg) (s2\<lparr>hasDrawer := (hasDrawer s2)(c := True)\<rparr>))"

text \<open>
  Sequences of \<open>registerMarker\<close> and \<open>setCursor\<close> calls; a run stops at the first
  exception.
\<close>

datatype MarkerOp = RegisterMarker string marker node | SetCursor marker node

fun markerStep ::
  "(marker \<Rightarrow> node list) \<Rightarrow> MarkerOp \<Rightarrow> workspace \<Rightarrow> error option \<times> workspace" where
  "markerStep detached (RegisterMarker id' marker svg) s = registerMarker detached id' marker svg s"
| "markerStep detached (SetCursor cursor svg) s = (None, setCursor detached (Some cursor) svg s)"

fun markerRun ::
  "(marker \<Rightarrow> node list) \<Rightarrow> MarkerOp list \<Rightarrow> workspace \<Rightarrow> error + workspace" where
  "markerRun detached [] s = Inr s"
| "markerRun detached (op # ops) s =
     (case markerStep detached op s of
        (Some e, s') \<Rightarrow> Inl e
      | (None, s') \<Rightarrow> markerRun detached ops s')"

text \<open>
  The ordering property: the children of the canvas are distinct, and when a cursor SVG is
  set it is the last child.
\<close>

definition cursor_last :: "workspace \<Rightarrow> bool" where
  "cursor_last s =
     (case blockCanvas s of
        None \<Rightarrow> True
      | Some children \<Rightarrow>
          distinct children \<and>
          (case cursorSvg' (manager s) of
             None \<Rightarrow> True
           | Some c \<Rightarrow> children \<noteq> [] \<and> last children = c))"

text \<open>
  The condition on the collaborators: disposing a marker that is registered, or that the
  run registers, takes no cursor node of the run out of the document.
\<close>

fun cursorNodes :: "MarkerOp list \<Rightarrow> node list" where
  "cursorNodes [] = []"
| "cursorNodes (RegisterMarker id' marker svg # ops) = cursorNodes ops"
| "cursorNodes (SetCursor cursor svg # ops) = svg # cursorNodes ops"

fun markerObjects :: "MarkerOp list \<Rightarrow> marker list" where
  "markerObjects [] = []"
| "markerObjects (RegisterMarker id' marker svg # ops) = marker # markerObjects ops"
| "markerObjects (SetCursor cursor svg # ops) = markerObjects ops"

definition keeps_cursor ::
  "(marker \<Rightarrow> node list) \<Rightarrow> MarkerOp list \<Rightarrow> workspace \<Rightarrow> bool" where
  "keeps_cursor detached ops s =
     (\<forall>m \<in> set (map snd (markers (manager s)) @ markerObjects ops).
      \<forall>c \<in> set ((case cursorSvg' (manager s) of None \<Rightarrow> [] | Some c \<Rightarrow> [c]) @ cursorNodes ops).
        c \<notin> set (detached m))"

text \<open>
  A workspace with two block nodes on its canvas, drawers that own the node
  \<open>marker + 100\<close>, and a run that re-registers an ID and replaces the cursor.
\<close>

definition demoWorkspace :: workspace where
  "demoWorkspace =
     \<lparr>manager = MarkerManager_new, blockCanvas = Some [50, 51],
      hasDrawer = (\<lambda>_. False), disposals = []\<rparr>"

definition demoDetached :: "marker \<Rightarrow> node list" where
  "demoDetached m = [m + 100]"

definition demoOps :: "MarkerOp list" where
  "demoOps =
     [RegisterMarker ''m1'' 1 101, SetCursor 9 109, RegisterMarker ''m2'' 2 102,
      RegisterMarker ''m1'' 3 103, SetCursor 8 108]"

definition demoWithCursor :: workspace where
  "demoWithCursor = setCursor demoDetached (Some 9) 109 demoWorkspace"

definition demoRegistered :: workspace where
  "demoRegistered = snd (registerMarker demoDetached ''m1'' 1 101 demoWorkspace)"

section \<open>Default keyboard shortcuts\<close>

text \<open>
  The callbacks act on collaborators outside the sources (the workspace, the selection,
  the gesture, the clipboard, the triggering event). The model keeps what the callbacks
  read of them and records, in order, the calls they make; it does not interpret the
  calls.
\<close>

text \<open>
  What \<open>common.getSelected()\<close> returns, when not \<open>null\<close>: the answers of
  \<open>isDeletable()\<close> and \<open>isMovable()\<close>, whether it is an instance of \<open>BlockSvg\<close>,
  and \<open>workspace.isFlyout\<close>.
\<close>

record Selectable =
  deletable :: bool
  movable :: bool
  isBlockSvg :: bool
  inFlyout :: bool

datatype effect =
    PreventDefault
  | HideChaff
  | CheckAndDelete Selectable
  | ClipboardCopy "Selectable option"
  | ClipboardPaste
  | Undo bool

text \<open>
  \<open>readOnly\<close> is \<open>workspace.options.readOnly\<close>, \<open>gestureInProgress\<close> is
  \<open>Gesture.inProgress()\<close>, \<open>pasteResult\<close> tells whether \<open>clipboard.paste()\<close>
  returns a truthy value.
\<close>

record editor =
  readOnly :: bool
  gestureInProgress :: bool
  selected :: "Selectable option"
  pasteResult :: bool
  effects :: "effect list"

definition perform :: "effect \<Rightarrow> editor \<Rightarrow> editor" where
  "perform f e = e\<lparr>effects := effects e @ [f]\<rparr>"

text \<open>
  An entry of \<open>keyCodes\<close> is a key code or a serialized chord.
  \<open>ShortcutRegistry.registry.createSerializedKey\<close> is not among the sources and is a
  parameter of everything that uses it; its second argument may be \<open>null\<close>.
\<close>

datatype key = KeyCode KeyCodes | SerializedKey string

type_synonym serializer = "KeyCodes \<Rightarrow> KeyCodes list option \<Rightarrow> string"

record KeyboardShortcut =
  keyCodes :: "key list"
  name :: string
  preconditionFn :: "editor \<Rightarrow> bool"
  callback :: "editor \<Rightarrow> (error + bool) \<times> editor"

text \<open>
  Modelled from the spec: \<open>ShortcutRegistry.registry.register\<close> (not among the
  sources), as the list of the records registered so far, in order.
\<close>

definition register :: "KeyboardShortcut \<Rightarrow> KeyboardShortcut list \<Rightarrow> KeyboardShortcut list" where
  "register shortcut registry = registry @ [shortcut]"

text \<open>The object \<open>Names\<close>, the same in both files.\<close>

definition Names_Escape :: string where "Names_Escape = ''escape''"
definition Names_Delete :: string where "Names_Delete = ''delete''"
definition Names_Paste :: string where "Names_Paste = ''paste''"
definition Names_Copy :: string where "Names_Copy = ''copy''"
definition Names_Undo :: string where "Names_Undo = ''undo''"
definition Names_Redo :: string where "Names_Redo = ''redo''"
definition Names_Cut :: string where "Names_Cut = ''cut''"

subsection \<open>The first file of default shortcuts (part 000)\<close>

text \<open>
  Each \<open>register...\<close> function builds one record and registers it; the record is given a
  name of its own here, and the suffix \<open>_0\<close> tells the file.
\<close>

definition escapeShortcut_0 :: KeyboardShortcut where
  "escapeShortcut_0 =
     \<lparr>keyCodes = [KeyCode ESC], name = Names_Escape,
      preconditionFn = (\<lambda>workspace. \<not> readOnly workspace),
      callback = (\<lambda>workspace. (Inr True, perform HideChaff workspace))\<rparr>"

definition registerEscape_0 :: "KeyboardShortcut list \<Rightarrow> KeyboardShortcut list" where
  "registerEscape_0 = register escapeShortcut_0"

definition deleteShortcut_0 :: KeyboardShortcut where
  "deleteShortcut_0 =
     \<lparr>keyCodes = [KeyCode DELETE, KeyCode BACKSPACE], name = Names_Delete,
      preconditionFn = (\<lambda>workspace.
        \<not> readOnly workspace \<and>
        (case selected workspace of None \<Rightarrow> False | Some s \<Rightarrow> deletable s)),
      callback = (\<lambda>workspace.
        let w1 = perform PreventDefault workspace in
        if gestureInProgress w1 then (Inr False, w1)
        else case selected w1 of
               None \<Rightarrow> (Inl TypeError, w1)
             | Some s \<Rightarrow> (Inr True, perform (CheckAndDelete s) w1))\<rparr>"

definition registerDelete_0 :: "KeyboardShortcut list \<Rightarrow> KeyboardShortcut list" where
  "registerDelete_0 = register deleteShortcut_0"

definition copyShortcut_0 :: "serializer \<Rightarrow> KeyboardShortcut" where
  "copyShortcut_0 createSerializedKey =
     (let ctrlC = createSerializedKey C (Some [CTRL]);
          altC = createSerializedKey C (Some [ALT]);
          metaC = createSerializedKey C (Some [META])
      in \<lparr>keyCodes = [SerializedKey ctrlC, SerializedKey altC, SerializedKey metaC],
          name = Names_Copy,
          preconditionFn = (\<lambda>workspace.
            \<not> readOnly workspace \<and> \<not> gestureInProgress workspace \<and>
            (case selected workspace of None \<Rightarrow> False | Some s \<Rightarrow> deletable s \<and> movable s)),
          callback = (\<lambda>workspace.
            let w1 = perform PreventDefault workspace;
                w2 = perform HideChaff w1
            in (Inr True, perform (ClipboardCopy (selected w2)) w2))\<rparr>)"

definition registerCopy_0 :: "serializer \<Rightarrow> KeyboardShortcut list \<Rightarrow> KeyboardShortcut list" where
  "registerCopy_0 createSerializedKey = register (copyShortcut_0 createSerializedKey)"

definition cutShortcut_0 :: "serializer \<Rightarrow> KeyboardShortcut" where
  "cutShortcut_0 createSerializedKey =
     (let ctrlX = createSerializedKey X (Some [CTRL]);
          altX = createSerializedKey X (Some [ALT]);
          metaX = createSerializedKey X (Some [META])
      in \<lparr>keyCodes = [SerializedKey ctrlX, SerializedKey altX, SerializedKey metaX],
          name = Names_Cut,
          preconditionFn = (\<lambda>workspace.
            \<not> readOnly workspace \<and> \<not> gestureInProgress workspace \<and>
            (case selected workspace of
               None \<Rightarrow> False
             | Some s \<Rightarrow> isBlockSvg s \<and> deletable s \<and> movable s \<and> \<not> inFlyout s)),
          callback = (\<lambda>workspace.
            case selected workspace of
              None \<Rightarrow> (Inr False, workspace)
            | Some s \<Rightarrow>
                (Inr True, perform (CheckAndDelete s) (perform (ClipboardCopy (Some s)) workspace)))\<rparr>)"

definition registerCut_0 :: "serializer \<Rightarrow> KeyboardShortcut list \<Rightarrow> KeyboardShortcut list" where
  "registerCut_0 createSerializedKey = register (cutShortcut_0 createSerializedKey)"

definition pasteShortcut_0 :: "serializer \<Rightarrow> KeyboardShortcut" where
  "pasteShortcut_0 createSerializedKey =
     (let ctrlV = createSerializedKey V (Some [CTRL]);
          altV = createSerializedKey V (Some [ALT]);
          metaV = createSerializedKey V (Some [META])
      in \<lparr>keyCodes = [SerializedKey ctrlV, SerializedKey altV, SerializedKey metaV],
          name = Names_Paste,
          preconditionFn = (\<lambda>workspace. \<not> readOnly workspace \<and> \<not> gestureInProgress workspace),
          callback = (\<lambda>workspace.
            (Inr (pasteResult workspace), perform ClipboardPaste workspace))\<rparr>)"

definition registerPaste_0 :: "serializer \<Rightarrow> KeyboardShortcut list \<Rightarrow> KeyboardShortcut list" where
  "registerPaste_0 createSerializedKey = register (pasteShortcut_0 createSerializedKey)"

definition undoShortcut_0 :: "serializer \<Rightarrow> KeyboardShortcut" where
  "undoShortcut_0 createSerializedKey =
     (let ctrlZ = createSerializedKey Z (Some [CTRL]);
          altZ = createSerializedKey Z (Some [ALT]);
          metaZ = createSerializedKey Z (Some [META])
      in \<lparr>keyCodes = [SerializedKey ctrlZ, SerializedKey altZ, SerializedKey metaZ],
          name = Names_Undo,
          preconditionFn = (\<lambda>workspace. \<not> readOnly workspace \<and> \<not> gestureInProgress workspace),
          callback = (\<lambda>workspace.
            (Inr True, perform (Undo False) (perform HideChaff workspace)))\<rparr>)"

definition registerUndo_0 :: "serializer \<Rightarrow> KeyboardShortcut list \<Rightarrow> KeyboardShortcut list" where
  "registerUndo_0 createSerializedKey = register (undoShortcut_0 createSerializedKey)"

definition redoShortcut_0 :: "serializer \<Rightarrow> KeyboardShortcut" where
  "redoShortcut_0 createSerializedKey =
     (let ctrlShiftZ = createSerializedKey Z (Some [SHIFT, CTRL]);
          altShiftZ = createSerializedKey Z (Some [SHIFT, ALT]);
          metaShiftZ = createSerializedKey Z (Some [SHIFT, META]);
          ctrlY = createSerializedKey Y (Some [CTRL])
      in \<lparr>keyCodes = [SerializedKey ctrlShiftZ, SerializedKey altShiftZ,
                      SerializedKey metaShiftZ, SerializedKey ctrlY],
          name = Names_Redo,
          preconditionFn = (\<lambda>workspace. \<not> gestureInProgress workspace \<and> \<not> readOnly workspace),
          callback = (\<lambda>workspace.
            (Inr True, perform (Undo True) (perform HideChaff workspace)))\<rparr>)"

definition registerRedo_0 :: "serializer \<Rightarrow> KeyboardShortcut list \<Rightarrow> KeyboardShortcut list" where
  "registerRedo_0 createSerializedKey = register (redoShortcut_0 createSerializedKey)"

definition registerDefaultShortcuts_0 ::
  "serializer \<Rightarrow> KeyboardShortcut list \<Rightarrow> KeyboardShortcut list" where
  "registerDefaultShortcuts_0 createSerializedKey registry =
     registerRedo_0 createSerializedKey
       (registerUndo_0 createSerializedKey
         (registerPaste_0 createSerializedKey
           (registerCut_0 createSerializedKey
             (registerCopy_0 createSerializedKey
               (registerDelete_0 (registerEscape_0 registry))))))"

subsection \<open>The second file of default shortcuts (part 001), with Key and Variants\<close>

record KeyProps =
  modifiers :: "KeyCodes list option"
  base :: KeyCodes

definition Key :: "serializer \<Rightarrow> KeyProps \<Rightarrow> string" where
  "Key createSerializedKey props = createSerializedKey (base props) (modifiers props)"

definition Variants :: "serializer \<Rightarrow> KeyCodes \<Rightarrow> KeyCodes list \<Rightarrow> string list" where
  "Variants createSerializedKey b ms =
     [Key createSerializedKey \<lparr>modifiers = Some (ms @ [CTRL]), base = b\<rparr>,
      Key createSerializedKey \<lparr>modifiers = Some (ms @ [ALT]), base = b\<rparr>,
      Key createSerializedKey \<lparr>modifiers = Some (ms @ [META]), base = b\<rparr>]"

definition escapeShortcut_1 :: KeyboardShortcut where
  "escapeShortcut_1 =
     \<lparr>keyCodes = [KeyCode ESC], name = Names_Escape,
      preconditionFn = (\<lambda>workspace. \<not> readOnly workspace),
      callback = (\<lambda>workspace. (Inr True, perform HideChaff workspace))\<rparr>"

definition registerEscape_1 :: "KeyboardShortcut list \<Rightarrow> KeyboardShortcut list" where
  "registerEscape_1 = register escapeShortcut_1"

definition deleteShortcut_1 :: KeyboardShortcut where
  "deleteShortcut_1 =
     \<lparr>keyCodes = [KeyCode DELETE, KeyCode BACKSPACE], name = Names_Delete,
      preconditionFn = (\<lambda>workspace.
        \<not> readOnly workspace \<and>
        (case selected workspace of None \<Rightarrow> False | Some s \<Rightarrow> deletable s)),
      callback = (\<lambda>workspace.
        let w1 = perform PreventDefault workspace in
        if gestureInProgress w1 then (Inr False, w1)
        else case selected w1 of
               None \<Rightarrow> (Inl TypeError, w1)
             | Some s \<Rightarrow> (Inr True, perform (CheckAndDelete s) w1))\<rparr>"

definition registerDelete_1 :: "KeyboardShortcut list \<Rightarrow> KeyboardShortcut list" where
  "registerDelete_1 = register deleteShortcut_1"

definition copyShortcut_1 :: "serializer \<Rightarrow> KeyboardShortcut" where
  "copyShortcut_1 createSerializedKey =
     \<lparr>keyCodes = map SerializedKey (Variants createSerializedKey C []),
      name = Names_Copy,
      preconditionFn = (\<lambda>workspace.
        \<not> readOnly workspace \<and> \<not> gestureInProgress workspace \<and>
        (case selected workspace of None \<Rightarrow> False | Some s \<Rightarrow> deletable s \<and> movable s)),
      callback = (\<lambda>workspace.
        let w1 = perform PreventDefault workspace;
            w2 = perform HideChaff w1
        in (Inr True, perform (ClipboardCopy (selected w2)) w2))\<rparr>"

definition registerCopy_1 :: "serializer \<Rightarrow> KeyboardShortcut list \<Rightarrow> KeyboardShortcut list" where
  "registerCopy_1 createSerializedKey = register (copyShortcut_1 createSerializedKey)"

definition cutShortcut_1 :: "serializer \<Rightarrow> KeyboardShortcut" where
  "cutShortcut_1 createSerializedKey =
     \<lparr>keyCodes = map SerializedKey (Variants createSerializedKey X []),
      name = Names_Cut,
      preconditionFn = (\<lambda>workspace.
        \<not> readOnly workspace \<and> \<not> gestureInProgress workspace \<and>
        (case selected workspace of
           None \<Rightarrow> False
         | Some s \<Rightarrow> isBlockSvg s \<and> deletable s \<and> movable s \<and> \<not> inFlyout s)),
      callback = (\<lambda>workspace.
        case selected workspace of
          None \<Rightarrow> (Inr False, workspace)
        | Some s \<Rightarrow>
            (Inr True, perform (CheckAndDelete s) (perform (ClipboardCopy (Some s)) workspace)))\<rparr>"

definition registerCut_1 :: "serializer \<Rightarrow> KeyboardShortcut list \<Rightarrow> KeyboardShortcut list" where
  "registerCut_1 createSerializedKey = register (cutShortcut_1 createSerializedKey)"

definition pasteShortcut_1 :: "serializer \<Rightarrow> KeyboardShortcut" where
  "pasteShortcut_1 createSerializedKey =
     \<lparr>keyCodes = map SerializedKey (Variants createSerializedKey V []),
      name = Names_Paste,
      preconditionFn = (\<lambda>workspace. \<not> readOnly workspace \<and> \<not> gestureInProgress workspace),
      callback = (\<lambda>workspace.
        (Inr (pasteResult workspace), perform ClipboardPaste workspace))\<rparr>"

definition registerPaste_1 :: "serializer \<Rightarrow> KeyboardShortcut list \<Rightarrow> KeyboardShortcut list" where
  "registerPaste_1 createSerializedKey = register (pasteShortcut_1 createSerializedKey)"

definition undoShortcut_1 :: "serializer \<Rightarrow> KeyboardShortcut" where
  "undoShortcut_1 createSerializedKey =
     \<lparr>keyCodes = map SerializedKey (Variants createSerializedKey Z []),
      name = Names_Undo,
      preconditionFn = (\<lambda>workspace. \<not> readOnly workspace \<and> \<not> gestureInProgress workspace),
      callback = (\<lambda>workspace.
        (Inr True, perform (Undo False) (perform HideChaff workspace)))\<rparr>"

definition registerUndo_1 :: "serializer \<Rightarrow> KeyboardShortcut list \<Rightarrow> KeyboardShortcut list" where
  "registerUndo_1 createSerializedKey = register (undoShortcut_1 createSerializedKey)"

definition redoShortcut_1 :: "serializer \<Rightarrow> KeyboardShortcut" where
  "redoShortcut_1 createSerializedKey =
     (let vs = Variants createSerializedKey Z [SHIFT];
          ctrl = vs ! 0; alt = vs ! 1; meta = vs ! 2;
          ctrlY = Key createSerializedKey \<lparr>modifiers = Some [CTRL], base = Y\<rparr>
      in \<lparr>keyCodes = [SerializedKey ctrl, SerializedKey alt, SerializedKey meta,
                      SerializedKey ctrlY],
          name = Names_Redo,
          preconditionFn = (\<lambda>workspace. \<not> gestureInProgress workspace \<and> \<not> readOnly workspace),
          callback = (\<lambda>workspace.
            (Inr True, perform (Undo True) (perform HideChaff workspace)))\<rparr>)"

definition registerRedo_1 :: "serializer \<Rightarrow> KeyboardShortcut list \<Rightarrow> KeyboardShortcut list" where
  "registerRedo_1 createSerializedKey = register (redoShortcut_1 createSerializedKey)"

definition registerDefaultShortcuts_1 ::
  "serializer \<Rightarrow> KeyboardShortcut list \<Rightarrow> KeyboardShortcut list" where
  "registerDefaultShortcuts_1 createSerializedKey registry =
     registerRedo_1 createSerializedKey
       (registerUndo_1 createSerializedKey
         (registerPaste_1 createSerializedKey
           (registerCut_1 createSerializedKey
             (registerCopy_1 createSerializedKey
               (registerDelete_1 (registerEscape_1 registry))))))"

text \<open>
  Modelled from the spec: a serializer for the examples, in which a chord is the names of
  its modifiers in a fixed order followed by the key code, whatever the order the
  modifiers are given in.
\<close>

definition demoSerializedKey :: serializer where
  "demoSerializedKey k ms =
     concat (map (\<lambda>m. (if m = SHIFT then ''Shift'' else if m = CTRL then ''Control''
                       else if m = ALT then ''Alt'' else ''Meta'') @ ''+'')
               (filter (\<lambda>m. m \<in> set (case ms of None \<Rightarrow> [] | Some l \<Rightarrow> l))
                  [SHIFT, CTRL, ALT, META])) @
     (if k = C then ''67'' else if k = V then ''86'' else if k = X then ''88''
      else if k = Y then ''89'' else if k = Z then ''90'' else ''0'')"

definition demoEditor :: editor where
  "demoEditor =
     \<lparr>readOnly = False, gestureInProgress = False,
      selected = Some \<lparr>deletable = True, movable = True, isBlockSvg = True, inFlyout = False\<rparr>,
      pasteResult = True, effects = []\<rparr>"

section \<open>ToolboxCategory: the colour of a category\<close>

text \<open>Truthiness of an optional string: \<open>undefined\<close>, \<open>null\<close> and \<open>''\<close> are falsy.\<close>

definition truthy :: "string option \<Rightarrow> bool" where
  "truthy v = (case v of None \<Rightarrow> False | Some s \<Rightarrow> s \<noteq> [])"

text \<open>
  The three properties of the category definition that \<open>getColour_\<close> reads, and what it
  reads of a theme.
\<close>

record CategoryInfo =
  categorystyle :: "string option"
  categoryStyle :: "string option"
  colour :: "string option"

record CategoryStyle =
  styleColour :: "string option"

record Theme =
  categoryStyles :: "(string \<times> CategoryStyle) list"

text \<open>
  The functions of \<open>utils/parsing.js\<close> and \<open>utils/colour.js\<close> and the workspace's theme
  are not among the sources; they are parameters. \<open>Number\<close> yields \<open>None\<close> for
  \<open>NaN\<close>; the type of numbers is left open.
\<close>

record 'n Collaborators =
  replaceMessageReferences :: "string \<Rightarrow> string option"
  Number :: "string \<Rightarrow> 'n option"
  hueToHex :: "'n \<Rightarrow> string"
  parse :: "string \<Rightarrow> string option"
  getTheme :: "Theme option"

text \<open>
  The fields \<open>name_\<close> and \<open>colour_\<close> of the category, and the console that
  \<open>console.warn\<close> writes to. The methods \<open>getColour_\<close>, \<open>getColourfromStyle_\<close> and
  \<open>parseColour_\<close> are written with a prime in place of the underscore.
\<close>

record ToolboxCategory =
  name' :: string
  colour' :: string
  console :: "string list"

text \<open>The three warnings, as the template literals spell them.\<close>

definition bothMessage :: "string \<Rightarrow> string" where
  "bothMessage n =
     ''Toolbox category '' @ [CHR 0x27] @ n @ [CHR 0x27] @ '' must'' @ [CHR 0x0A] @
     replicate 17 CHR '' '' @ ''not have both a style and a colour''"

definition styleMessage :: "string \<Rightarrow> string" where
  "styleMessage n =
     ''Style '' @ [CHR 0x27] @ n @ [CHR 0x27] @ '' must exist'' @ [CHR 0x0A] @
     replicate 13 CHR '' '' @ ''and contain a colour value''"

definition colourMessage :: "string \<Rightarrow> string \<Rightarrow> string" where
  "colourMessage n color =
     ''Toolbox category '' @ [CHR 0x27] @ n @ [CHR 0x27] @ '' has an'' @ [CHR 0x0A] @
     replicate 13 CHR '' '' @ ''unrecognized color attribute: '' @ color"

definition warn :: "string \<Rightarrow> ToolboxCategory \<Rightarrow> ToolboxCategory" where
  "warn message t = t\<lparr>console := console t @ [message]\<rparr>"

definition parseColour' ::
  "'n Collaborators \<Rightarrow> string \<Rightarrow> ToolboxCategory \<Rightarrow> string \<times> ToolboxCategory" where
  "parseColour' env v t =
     (case replaceMessageReferences env v of
        None \<Rightarrow> ([], t)
      | Some color \<Rightarrow>
          if color = [] then ([], t)
          else case Number env color of
                 Some hue \<Rightarrow> (hueToHex env hue, t)
               | None \<Rightarrow>
                   (let hex = parse env color in
                    if truthy hex then (the hex, t)
                    else ([], warn (colourMessage (name' t) color) t)))"

definition getColourfromStyle' ::
  "'n Collaborators \<Rightarrow> string \<Rightarrow> ToolboxCategory \<Rightarrow> string \<times> ToolboxCategory" where
  "getColourfromStyle' env n t =
     (if n = [] then ([], t)
      else case getTheme env of
             None \<Rightarrow> ([], t)
           | Some theme \<Rightarrow>
               (let c = (case map_of (categoryStyles theme) n of
                           None \<Rightarrow> None
                         | Some style \<Rightarrow> styleColour style)
                in if truthy c then parseColour' env (the c) t
                   else ([], warn (styleMessage n) t)))"

definition getColour' ::
  "'n Collaborators \<Rightarrow> CategoryInfo \<Rightarrow> ToolboxCategory \<Rightarrow> string \<times> ToolboxCategory" where
  "getColour' env category t =
     (let styleName = (case categorystyle category of
                         None \<Rightarrow> categoryStyle category
                       | Some s \<Rightarrow> Some s);
          c = colour category
      in if truthy c \<and> truthy styleName then ([], warn (bothMessage (name' t)) t)
         else if truthy styleName then getColourfromStyle' env (the styleName) t
         else if truthy c then parseColour' env (the c) t
         else ([], t))"

definition refreshTheme :: "'n Collaborators \<Rightarrow> CategoryInfo \<Rightarrow> ToolboxCategory \<Rightarrow> ToolboxCategory" where
  "refreshTheme env toolboxItemDef t =
     (case getColour' env toolboxItemDef t of (c, t') \<Rightarrow> t'\<lparr>colour' := c\<rparr>)"

definition demoCollaborators :: "nat Collaborators" where
  "demoCollaborators =
     \<lparr>replaceMessageReferences = Some,
      Number = (\<lambda>s. if s = ''210'' then Some 210 else None),
      hueToHex = (\<lambda>h. ''#5b80a5''),
      parse = (\<lambda>s. if s = ''#ff0000'' then Some s else None),
      getTheme = Some \<lparr>categoryStyles = [(''logic_category'', \<lparr>styleColour = Some ''210''\<rparr>)]\<rparr>\<rparr>"

definition demoCategory :: ToolboxCategory where
  "demoCategory = \<lparr>name' = ''Logic'', colour' = [], console = []\<rparr>"

section \<open>Properties of MenuItem and Menu\<close>

lemma setHighlighted_items:
  "items (MenuItem_setHighlighted i b w) = (items w)(i := (items w i)\<lparr>highlight := b\<rparr>)"
  by (simp add: MenuItem_setHighlighted_def Let_def addClass_def removeClass_def split: option.splits)

lemma setHighlighted_menu: "menu (MenuItem_setHighlighted i b w) = menu w"
  by (simp add: MenuItem_setHighlighted_def Let_def addClass_def removeClass_def split: option.splits)

lemma setHighlighted_invoked: "invoked (MenuItem_setHighlighted i b w) = invoked w"
  by (simp add: MenuItem_setHighlighted_def Let_def addClass_def removeClass_def split: option.splits)

lemma Menu_setHighlighted_menu:
  "menu (snd (Menu_setHighlighted it w)) = (menu w)\<lparr>highlightedItem := it\<rparr>"
  by (simp add: Menu_setHighlighted_def Let_def setHighlighted_menu split: option.splits prod.splits)

lemma Menu_setHighlighted_flag:
  "highlight (items (snd (Menu_setHighlighted it w)) j) =
     (if it = Some j then True
      else if highlightedItem (menu w) = Some j then False
      else highlight (items w j))"
  by (auto simp add: Menu_setHighlighted_def Let_def setHighlighted_menu setHighlighted_items
      split: option.splits prod.splits)

lemma Menu_setHighlighted_enabled:
  "enabled (items (snd (Menu_setHighlighted it w)) j) = enabled (items w j)"
  by (auto simp add: Menu_setHighlighted_def Let_def setHighlighted_menu setHighlighted_items
      split: option.splits prod.splits)

lemma Menu_setHighlighted_inv:
  "highlight_inv w \<Longrightarrow> highlight_inv (snd (Menu_setHighlighted it w))"
  by (auto simp add: highlight_inv_def Menu_setHighlighted_menu Menu_setHighlighted_flag)

lemma highlightLoop_up:
  "0 \<le> i \<Longrightarrow>
   highlightLoop i 1 w =
     Some (case find (\<lambda>r. isEnabled r w) (drop (nat i) (menuItems (menu w))) of
             None \<Rightarrow> (None, w)
           | Some r \<Rightarrow> Menu_setHighlighted (Some r) w)"
proof (induction "length (menuItems (menu w)) - nat i" arbitrary: i)
  case 0
  then have "array_get (menuItems (menu w)) i = None"
    by (auto simp add: array_get_def)
  with 0 show ?case
    by (subst highlightLoop.simps) simp
next
  case (Suc n)
  then have lt: "nat i < length (menuItems (menu w))" by linarith
  then have get: "array_get (menuItems (menu w)) i = Some (menuItems (menu w) ! nat i)"
    using Suc.prems by (auto simp add: array_get_def)
  have dr: "drop (nat i) (menuItems (menu w)) =
      menuItems (menu w) ! nat i # drop (nat (i + 1)) (menuItems (menu w))"
    using lt Suc.prems by (simp add: Cons_nth_drop_Suc nat_add_distrib)
  show ?case
  proof (cases "isEnabled (menuItems (menu w) ! nat i) w")
    case True
    then show ?thesis
      by (subst highlightLoop.simps) (simp add: get dr)
  next
    case False
    have "n = length (menuItems (menu w)) - nat (i + 1)"
      using Suc.hyps(2) Suc.prems by linarith
    then have "highlightLoop (i + 1) 1 w =
       Some (case find (\<lambda>r. isEnabled r w) (drop (nat (i + 1)) (menuItems (menu w))) of
             None \<Rightarrow> (None, w)
           | Some r \<Rightarrow> Menu_setHighlighted (Some r) w)"
      using Suc.hyps(1) [of "i + 1"] Suc.prems by simp
    with False show ?thesis
      by (subst highlightLoop.simps) (simp add: get dr)
  qed
qed

lemma highlightLoop_down:
  "i < int (length (menuItems (menu w))) \<Longrightarrow>
   highlightLoop i (- 1) w =
     Some (case find (\<lambda>r. isEnabled r w) (rev (take (nat (i + 1)) (menuItems (menu w)))) of
             None \<Rightarrow> (None, w)
           | Some r \<Rightarrow> Menu_setHighlighted (Some r) w)"
proof (induction "nat (i + 1)" arbitrary: i)
  case 0
  then have "array_get (menuItems (menu w)) i = None"
    by (auto simp add: array_get_def)
  with 0 show ?case
    by (subst highlightLoop.simps) simp
next
  case (Suc n)
  then have nn: "0 \<le> i" by linarith
  then have get: "array_get (menuItems (menu w)) i = Some (menuItems (menu w) ! nat i)"
    using Suc.prems by (auto simp add: array_get_def)
  have lt: "nat i < length (menuItems (menu w))" using nn Suc.prems by linarith
  have tk: "take (nat (i + 1)) (menuItems (menu w)) =
      take (nat i) (menuItems (menu w)) @ [menuItems (menu w) ! nat i]"
    using lt nn by (simp add: nat_add_distrib take_Suc_conv_app_nth)
  show ?case
  proof (cases "isEnabled (menuItems (menu w) ! nat i) w")
    case True
    then show ?thesis
      by (subst highlightLoop.simps) (simp add: get tk)
  next
    case False
    have "n = nat (i - 1 + 1)" using Suc.hyps(2) by linarith
    then have "highlightLoop (i - 1) (- 1) w =
       Some (case find (\<lambda>r. isEnabled r w) (rev (take (nat (i - 1 + 1)) (menuItems (menu w)))) of
             None \<Rightarrow> (None, w)
           | Some r \<Rightarrow> Menu_setHighlighted (Some r) w)"
      using Suc.hyps(1) [of "i - 1"] Suc.prems by simp
    with False show ?thesis
      by (subst highlightLoop.simps) (simp add: get tk)
  qed
qed

lemma indexOf_absent: "v \<notin> set xs \<Longrightarrow> indexOf xs v = - 1"
  by (induction xs) (auto simp add: Let_def)

lemma indexOf_first: "v \<notin> set before \<Longrightarrow> indexOf (before @ v # after) v = int (length before)"
  by (induction before) (auto simp add: Let_def)

lemma indexOf_lower: "- 1 \<le> indexOf xs v"
  by (induction xs) (auto simp add: Let_def)

lemma indexOf_upper: "indexOf xs v < int (length xs)"
  by (induction xs) (auto simp add: Let_def)

lemma highlightLoop_up_inv:
  assumes "0 \<le> i" and "highlight_inv w"
  shows "\<exists>e w'. highlightLoop i 1 w = Some (e, w') \<and> highlight_inv w'"
proof (cases "find (\<lambda>r. isEnabled r w) (drop (nat i) (menuItems (menu w)))")
  case None
  with assms show ?thesis by (simp add: highlightLoop_up)
next
  case (Some r)
  obtain e w' where r: "Menu_setHighlighted (Some r) w = (e, w')"
    by (cases "Menu_setHighlighted (Some r) w")
  with Menu_setHighlighted_inv [OF assms(2), of "Some r"] have "highlight_inv w'" by simp
  with Some r assms(1) show ?thesis by (simp add: highlightLoop_up)
qed

lemma highlightLoop_down_inv:
  assumes "i < int (length (menuItems (menu w)))" and "highlight_inv w"
  shows "\<exists>e w'. highlightLoop i (- 1) w = Some (e, w') \<and> highlight_inv w'"
proof (cases "find (\<lambda>r. isEnabled r w) (rev (take (nat (i + 1)) (menuItems (menu w))))")
  case None
  with assms show ?thesis by (simp add: highlightLoop_down)
next
  case (Some r)
  obtain e w' where r: "Menu_setHighlighted (Some r) w = (e, w')"
    by (cases "Menu_setHighlighted (Some r) w")
  with Menu_setHighlighted_inv [OF assms(2), of "Some r"] have "highlight_inv w'" by simp
  with Some r assms(1) show ?thesis by (simp add: highlightLoop_down)
qed

lemma handleMouseOver_inv:
  "highlight_inv w \<Longrightarrow> highlight_inv (snd (handleMouseOver event w))"
  by (simp add: handleMouseOver_def Menu_setHighlighted_inv split: option.splits)

lemma menuStep_inv:
  assumes "highlight_inv w"
  shows "\<exists>e w'. menuStep op w = Some (e, w') \<and> highlight_inv w'"
proof (cases op)
  case (SetHighlighted it)
  obtain e w' where r: "Menu_setHighlighted it w = (e, w')"
    by (cases "Menu_setHighlighted it w")
  with Menu_setHighlighted_inv [OF assms, of it] have "highlight_inv w'" by simp
  with r SetHighlighted show ?thesis by simp
next
  case HighlightNext
  have "0 \<le> (case highlightedItem (menu w) of None \<Rightarrow> - 1
              | Some h \<Rightarrow> indexOf (menuItems (menu w)) h) + 1"
  proof (cases "highlightedItem (menu w)")
    case None
    then show ?thesis by simp
  next
    case (Some h)
    with indexOf_lower [of "menuItems (menu w)" h] show ?thesis by simp
  qed
  from highlightLoop_up_inv [OF this assms] HighlightNext show ?thesis
    by (simp add: highlightNext_def highlightHelper_def)
next
  case HighlightPrevious
  let ?i = "case highlightedItem (menu w) of None \<Rightarrow> - 1
              | Some h \<Rightarrow> indexOf (menuItems (menu w)) h"
  have "(if ?i < 0 then int (length (menuItems (menu w))) else ?i) + - 1
          < int (length (menuItems (menu w)))"
  proof (cases "highlightedItem (menu w)")
    case None
    then show ?thesis by simp
  next
    case (Some h)
    with indexOf_upper [of "menuItems (menu w)" h] show ?thesis by simp
  qed
  from highlightLoop_down_inv [OF this assms] HighlightPrevious show ?thesis
    by (simp add: highlightPrevious_def highlightHelper_def Let_def)
next
  case HighlightFirst
  from highlightLoop_up_inv [of 0, OF _ assms] HighlightFirst show ?thesis
    by (simp add: highlightFirst_def highlightHelper_def)
next
  case HighlightLast
  from highlightLoop_down_inv [of "int (length (menuItems (menu w))) - 1", OF _ assms]
    HighlightLast show ?thesis
    by (simp add: highlightLast_def highlightHelper_def)
next
  case (PointerOver event)
  obtain e w' where r: "handleMouseOver event w = (e, w')"
    by (cases "handleMouseOver event w")
  with handleMouseOver_inv [OF assms, of event] have "highlight_inv w'" by simp
  with r PointerOver show ?thesis by simp
qed

lemma menuRun_inv:
  "highlight_inv w \<Longrightarrow> \<exists>w'. menuRun ops w = Some w' \<and> highlight_inv w'"
proof (induction ops arbitrary: w)
  case Nil
  then show ?case by simp
next
  case (Cons op ops)
  from menuStep_inv [OF Cons.prems, of op]
  obtain e w1 where s: "menuStep op w = Some (e, w1)" and i: "highlight_inv w1" by blast
  from Cons.IH [OF i] s show ?case by simp
qed

text \<open>
  What \<open>getMenuItem\<close> resolves: the walk stops at the nearest element of the chain
  that is the menu's root or a menu-item element owned by an item of the menu; at the root
  the result is \<open>null\<close>, otherwise it is the first item of the menu owning that
  element.
\<close>

lemma getMenuItem_nearest:
  "getMenuItem w path =
     (case find (\<lambda>n. Some n = rootElement (menu w) \<or>
                   (''blocklyMenuItem'' \<in> classList (elems w n) \<and>
                    (\<exists>i \<in> set (menuItems (menu w)). element (items w i) = Some n))) path of
        None \<Rightarrow> None
      | Some n \<Rightarrow>
          if Some n = rootElement (menu w) then None
          else find (\<lambda>i. element (items w i) = Some n) (menuItems (menu w)))"
proof (induction path)
  case Nil
  show ?case by simp
next
  case (Cons current parents)
  show ?case
  proof (cases "find (\<lambda>i. element (items w i) = Some current) (menuItems (menu w))")
    case None
    then have "\<not> (\<exists>i \<in> set (menuItems (menu w)). element (items w i) = Some current)"
      by (simp add: find_None_iff)
    with None Cons show ?thesis by (cases "rootElement (menu w)") auto
  next
    case (Some i)
    then have "\<exists>i \<in> set (menuItems (menu w)). element (items w i) = Some current"
      by (auto simp add: find_Some_iff)
    with Some Cons show ?thesis by (cases "rootElement (menu w)") auto
  qed
qed

lemma find_first:
  "\<forall>k \<in> set pre. \<not> P k \<Longrightarrow> P n \<Longrightarrow> find P (pre @ n # post) = Some n"
  by (induction pre) auto

lemma getMenuItem_owner:
  assumes "getMenuItem w path = Some i"
  shows "i \<in> set (menuItems (menu w)) \<and>
         (\<exists>n \<in> set path. element (items w i) = Some n \<and>
            ''blocklyMenuItem'' \<in> classList (elems w n) \<and> Some n \<noteq> rootElement (menu w))"
  using assms
proof (induction path)
  case Nil
  then show ?case by simp
next
  case (Cons current parents)
  show ?case
  proof (cases "Some current \<noteq> rootElement (menu w) \<and>
      ''blocklyMenuItem'' \<in> classList (elems w current) \<and>
      find (\<lambda>i. element (items w i) = Some current) (menuItems (menu w)) = Some i")
    case True
    then have "i \<in> set (menuItems (menu w)) \<and> element (items w i) = Some current"
      by (auto simp add: find_Some_iff)
    with True show ?thesis by auto
  next
    case False
    with Cons.prems have "getMenuItem w parents = Some i"
      by (auto split: if_splits option.splits)
    from Cons.IH [OF this] show ?thesis by auto
  qed
qed

lemma getMenuItem_at:
  assumes pre: "\<forall>k \<in> set pre. Some k \<noteq> rootElement (menu w) \<and>
             \<not> (''blocklyMenuItem'' \<in> classList (elems w k) \<and>
                (\<exists>i \<in> set (menuItems (menu w)). element (items w i) = Some k))"
    and n: "Some n \<noteq> rootElement (menu w)" "''blocklyMenuItem'' \<in> classList (elems w n)"
    and i: "find (\<lambda>i. element (items w i) = Some n) (menuItems (menu w)) = Some i"
  shows "getMenuItem w (pre @ n # post) = Some i"
proof -
  let ?P = "\<lambda>n. Some n = rootElement (menu w) \<or>
                   (''blocklyMenuItem'' \<in> classList (elems w n) \<and>
                    (\<exists>i \<in> set (menuItems (menu w)). element (items w i) = Some n))"
  from i have "\<exists>i \<in> set (menuItems (menu w)). element (items w i) = Some n"
    by (auto simp add: find_Some_iff)
  with n have "?P n" by simp
  moreover from pre have "\<forall>k \<in> set pre. \<not> ?P k" by simp
  ultimately have "find ?P (pre @ n # post) = Some n" by (rule find_first [rotated])
  with n i show ?thesis by (simp add: getMenuItem_nearest)
qed

text \<open>
  The invariant holds for a menu as constructed, and adding an item that is not flagged
  keeps it.
\<close>

lemma new_menu_inv: "highlight_inv (w\<lparr>menu := Menu_new\<rparr>)"
  by (simp add: highlight_inv_def Menu_new_def)

lemma addChild_inv:
  "highlight_inv w \<Longrightarrow> highlight (items w i) = (highlightedItem (menu w) = Some i) \<Longrightarrow>
   highlight_inv (addChild i w)"
  by (auto simp add: highlight_inv_def addChild_def)

lemmas demo_simps = demoMenu_def demoItems_def demoDom_def MenuItem_new_def

lemma getMenuItem_openingCoords:
  "getMenuItem (w\<lparr>menu := (menu w)\<lparr>openingCoords := v\<rparr>\<rparr>) path = getMenuItem w path"
  by (induction path) (simp_all split: option.splits)

lemma performAction_invoked:
  "invoked (performAction i w) =
     (case actionHandler (items w i) of
        None \<Rightarrow> invoked w
      | Some h \<Rightarrow> if enabled (items w i) then invoked w @ [(h, i)] else invoked w)"
  by (simp add: performAction_def split: option.splits)

lemma performAction_menu: "menu (performAction i w) = menu w"
  by (simp add: performAction_def split: option.splits)

text \<open>
  Claim C1. Whatever sequence of \<open>setHighlighted\<close>, \<open>highlightNext\<close>,
  \<open>highlightPrevious\<close>, \<open>highlightFirst\<close>, \<open>highlightLast\<close> and pointer-over
  events a menu goes through, starting where the invariant holds, every operation returns,
  an item of the menu carries the highlight flag exactly when it is the
  \<open>highlightedItem\<close>, and so at most one item is highlighted. In particular
  \<open>setHighlighted(A)\<close> followed by \<open>setHighlighted(B)\<close>, for two items
  \<open>A\<close> and \<open>B\<close>, leaves \<open>B\<close> the one highlighted item and the flag of
  \<open>A\<close> false.
\<close>

theorem one_highlighted_item:
  assumes "highlight_inv w"
  shows "(\<exists>w'. menuRun ops w = Some w' \<and> highlight_inv w' \<and>
            (\<forall>a \<in> set (menuItems (menu w')). \<forall>b \<in> set (menuItems (menu w')).
               highlight (items w' a) \<and> highlight (items w' b) \<longrightarrow> a = b))
       \<and> (A \<noteq> B \<longrightarrow>
            (let w' = snd (Menu_setHighlighted (Some B) (snd (Menu_setHighlighted (Some A) w)))
             in highlightedItem (menu w') = Some B \<and> highlight (items w' B) \<and>
                \<not> highlight (items w' A) \<and>
                (\<forall>i \<in> set (menuItems (menu w')). highlight (items w' i) \<longrightarrow> i = B)))"
proof (intro conjI impI)
  from menuRun_inv [OF assms, of ops]
  obtain w' where r: "menuRun ops w = Some w'" and i: "highlight_inv w'" by blast
  from i have "\<forall>a \<in> set (menuItems (menu w')). \<forall>b \<in> set (menuItems (menu w')).
               highlight (items w' a) \<and> highlight (items w' b) \<longrightarrow> a = b"
    by (auto simp add: highlight_inv_def)
  with r i show "\<exists>w'. menuRun ops w = Some w' \<and> highlight_inv w' \<and>
            (\<forall>a \<in> set (menuItems (menu w')). \<forall>b \<in> set (menuItems (menu w')).
               highlight (items w' a) \<and> highlight (items w' b) \<longrightarrow> a = b)"
    by blast
next
  assume "A \<noteq> B"
  with assms show "let w' = snd (Menu_setHighlighted (Some B) (snd (Menu_setHighlighted (Some A) w)))
             in highlightedItem (menu w') = Some B \<and> highlight (items w' B) \<and>
                \<not> highlight (items w' A) \<and>
                (\<forall>i \<in> set (menuItems (menu w')). highlight (items w' i) \<longrightarrow> i = B)"
    by (auto simp add: Let_def Menu_setHighlighted_menu Menu_setHighlighted_flag highlight_inv_def)
qed

theorem one_highlighted_item_witness:
  "highlight_inv demoMenu \<and> (0::item) \<noteq> 2 \<and>
   (\<exists>w'. menuRun [HighlightNext, SetHighlighted (Some 1), HighlightPrevious] demoMenu = Some w' \<and>
      highlight_inv w' \<and>
      (\<forall>a \<in> set (menuItems (menu w')). \<forall>b \<in> set (menuItems (menu w')).
               highlight (items w' a) \<and> highlight (items w' b) \<longrightarrow> a = b)) \<and>
   (let w' = snd (Menu_setHighlighted (Some 2) (snd (Menu_setHighlighted (Some 0) demoMenu)))
    in highlightedItem (menu w') = Some 2 \<and> highlight (items w' 2) \<and>
       \<not> highlight (items w' 0) \<and>
       (\<forall>i \<in> set (menuItems (menu w')). highlight (items w' i) \<longrightarrow> i = 2))"
proof -
  have h: "highlight_inv demoMenu"
    by (simp add: highlight_inv_def demo_simps)
  show ?thesis
    using h one_highlighted_item [OF h, of "[HighlightNext, SetHighlighted (Some 1), HighlightPrevious]" 0 2]
    by simp
qed

text \<open>
  Claim C4. \<open>highlightNext\<close> highlights the first enabled item after the current one
  and \<open>highlightPrevious\<close> the nearest enabled item before it, in insertion order;
  disabled items are passed over, and when no enabled item is left in that direction
  nothing changes (there is no wraparound). With no current highlight the search of
  \<open>highlightNext\<close> begins at the first item and that of \<open>highlightPrevious\<close> at the
  last one. Both always return.
\<close>

theorem highlight_moves:
  "((\<forall>h. highlightedItem (menu w) = Some h \<longrightarrow> h \<notin> set (menuItems (menu w))) \<longrightarrow>
      highlightNext w =
        Some (case find (\<lambda>i. isEnabled i w) (menuItems (menu w)) of
                None \<Rightarrow> (None, w)
              | Some i \<Rightarrow> Menu_setHighlighted (Some i) w) \<and>
      highlightPrevious w =
        Some (case find (\<lambda>i. isEnabled i w) (rev (menuItems (menu w))) of
                None \<Rightarrow> (None, w)
              | Some i \<Rightarrow> Menu_setHighlighted (Some i) w))
   \<and> (\<forall>before h after.
        highlightedItem (menu w) = Some h \<and> menuItems (menu w) = before @ h # after \<and>
        h \<notin> set before \<longrightarrow>
          highlightNext w =
            Some (case find (\<lambda>i. isEnabled i w) after of
                    None \<Rightarrow> (None, w)
                  | Some i \<Rightarrow> Menu_setHighlighted (Some i) w) \<and>
          highlightPrevious w =
            Some (case find (\<lambda>i. isEnabled i w) (rev before) of
                    None \<Rightarrow> (None, w)
                  | Some i \<Rightarrow> Menu_setHighlighted (Some i) w))
   \<and> (\<forall>i. highlightedItem (menu (snd (Menu_setHighlighted (Some i) w))) = Some i \<and>
            highlight (items (snd (Menu_setHighlighted (Some i) w)) i))"
proof (intro conjI impI allI)
  assume none: "\<forall>h. highlightedItem (menu w) = Some h \<longrightarrow> h \<notin> set (menuItems (menu w))"
  have idx: "(case highlightedItem (menu w) of None \<Rightarrow> - 1
              | Some h \<Rightarrow> indexOf (menuItems (menu w)) h) = - 1"
    using none by (auto simp add: indexOf_absent split: option.splits)
  show "highlightNext w =
        Some (case find (\<lambda>i. isEnabled i w) (menuItems (menu w)) of
                None \<Rightarrow> (None, w)
              | Some i \<Rightarrow> Menu_setHighlighted (Some i) w)"
    using highlightLoop_up [of 0 w] by (simp add: highlightNext_def highlightHelper_def idx)
  show "highlightPrevious w =
        Some (case find (\<lambda>i. isEnabled i w) (rev (menuItems (menu w))) of
                None \<Rightarrow> (None, w)
              | Some i \<Rightarrow> Menu_setHighlighted (Some i) w)"
    using highlightLoop_down [of "int (length (menuItems (menu w))) - 1" w]
    by (simp add: highlightPrevious_def highlightHelper_def idx)
next
  fix before h after
  assume a: "highlightedItem (menu w) = Some h \<and> menuItems (menu w) = before @ h # after \<and>
        h \<notin> set before"
  then have idx: "indexOf (before @ h # after) h = int (length before)"
    by (simp add: indexOf_first)
  show "highlightNext w =
            Some (case find (\<lambda>i. isEnabled i w) after of
                    None \<Rightarrow> (None, w)
                  | Some i \<Rightarrow> Menu_setHighlighted (Some i) w)"
    using highlightLoop_up [of "int (length before) + 1" w] a
    by (simp add: highlightNext_def highlightHelper_def idx nat_add_distrib)
  show "highlightPrevious w =
            Some (case find (\<lambda>i. isEnabled i w) (rev before) of
                    None \<Rightarrow> (None, w)
                  | Some i \<Rightarrow> Menu_setHighlighted (Some i) w)"
    using highlightLoop_down [of "int (length before) - 1" w] a
    by (simp add: highlightPrevious_def highlightHelper_def idx)
next
  fix i
  show "highlightedItem (menu (snd (Menu_setHighlighted (Some i) w))) = Some i"
    by (simp add: Menu_setHighlighted_menu)
  show "highlight (items (snd (Menu_setHighlighted (Some i) w)) i)"
    by (simp add: Menu_setHighlighted_flag)
qed

theorem highlight_moves_witness:
  "highlightedItem (menu demoMenu) = None \<and>
   highlightNext demoMenu = Some (Menu_setHighlighted (Some 0) demoMenu) \<and>
   highlightPrevious demoMenu = Some (Menu_setHighlighted (Some 2) demoMenu) \<and>
   highlightedItem (menu demoAtFirst) = Some 0 \<and>
   menuItems (menu demoAtFirst) = [] @ 0 # [1, 2, 3] \<and>
   highlightNext demoAtFirst = Some (Menu_setHighlighted (Some 2) demoAtFirst) \<and>
   highlightPrevious demoAtFirst = Some (None, demoAtFirst)"
proof -
  have none: "highlightedItem (menu demoMenu) = None"
    by (simp add: demo_simps)
  have en: "\<not> isEnabled 3 demoMenu \<and> isEnabled 2 demoMenu \<and> \<not> isEnabled 1 demoMenu \<and>
      isEnabled 0 demoMenu \<and> menuItems (menu demoMenu) = [0, 1, 2, 3]"
    by (simp add: isEnabled_def demo_simps)
  have first: "highlightedItem (menu demoAtFirst) = Some 0 \<and>
      menuItems (menu demoAtFirst) = [] @ 0 # [1, 2, 3]"
    by (simp add: demoAtFirst_def Menu_setHighlighted_menu demo_simps)
  have en1: "\<not> isEnabled 3 demoAtFirst \<and> isEnabled 2 demoAtFirst \<and> \<not> isEnabled 1 demoAtFirst"
    by (simp add: isEnabled_def demoAtFirst_def Menu_setHighlighted_enabled demo_simps)
  have a: "highlightNext demoMenu = Some (Menu_setHighlighted (Some 0) demoMenu) \<and>
      highlightPrevious demoMenu = Some (Menu_setHighlighted (Some 2) demoMenu)"
    using highlight_moves [of demoMenu] none en by simp
  have b: "highlightNext demoAtFirst = Some (Menu_setHighlighted (Some 2) demoAtFirst) \<and>
      highlightPrevious demoAtFirst = Some (None, demoAtFirst)"
    using highlight_moves [of demoAtFirst, THEN conjunct2, THEN conjunct1, rule_format,
        of 0 "[]" "[1, 2, 3]"] first en1
    by simp
  show ?thesis using none first a b by simp
qed

text \<open>
  Claim C3. On a pointer-down, when \<open>openingCoords\<close> is recorded and the event's
  client position is less than one pixel away from it, no action handler is called;
  otherwise \<open>performAction\<close> runs on the item resolved from the target (calling the
  handler of an enabled item). The item resolved is the first item of the menu that owns
  the nearest menu-item element on the way from the target up to the menu's root; where
  there is none, nothing is called. In both cases \<open>openingCoords\<close> is \<open>null\<close>
  afterwards.
\<close>

theorem click_routing:
  "openingCoords (menu (handleClick distance event w)) = None \<and>
   (click_suppressed distance event w \<longrightarrow>
      handleClick distance event w = w\<lparr>menu := (menu w)\<lparr>openingCoords := None\<rparr>\<rparr> \<and>
      invoked (handleClick distance event w) = invoked w) \<and>
   (\<not> click_suppressed distance event w \<longrightarrow>
      handleClick distance event w =
        (case getMenuItem w (target event) of
           None \<Rightarrow> w\<lparr>menu := (menu w)\<lparr>openingCoords := None\<rparr>\<rparr>
         | Some i \<Rightarrow> performAction i (w\<lparr>menu := (menu w)\<lparr>openingCoords := None\<rparr>\<rparr>)) \<and>
      (\<forall>i h. getMenuItem w (target event) = Some i \<and> enabled (items w i) \<and>
             actionHandler (items w i) = Some h \<longrightarrow>
             invoked (handleClick distance event w) = invoked w @ [(h, i)])) \<and>
   getMenuItem w (target event) =
     (case find (\<lambda>n. Some n = rootElement (menu w) \<or>
                   (''blocklyMenuItem'' \<in> classList (elems w n) \<and>
                    (\<exists>i \<in> set (menuItems (menu w)). element (items w i) = Some n)))
             (target event) of
        None \<Rightarrow> None
      | Some n \<Rightarrow>
          if Some n = rootElement (menu w) then None
          else find (\<lambda>i. element (items w i) = Some n) (menuItems (menu w))) \<and>
   (\<forall>i. getMenuItem w (target event) = Some i \<longrightarrow>
      i \<in> set (menuItems (menu w)) \<and>
      (\<exists>n \<in> set (target event). element (items w i) = Some n \<and>
         ''blocklyMenuItem'' \<in> classList (elems w n) \<and> Some n \<noteq> rootElement (menu w))) \<and>
   (\<forall>pre n post i h.
      \<not> click_suppressed distance event w \<and> target event = pre @ n # post \<and>
      (\<forall>k \<in> set pre. Some k \<noteq> rootElement (menu w) \<and>
         \<not> (''blocklyMenuItem'' \<in> classList (elems w k) \<and>
            (\<exists>j \<in> set (menuItems (menu w)). element (items w j) = Some k))) \<and>
      Some n \<noteq> rootElement (menu w) \<and> ''blocklyMenuItem'' \<in> classList (elems w n) \<and>
      find (\<lambda>j. element (items w j) = Some n) (menuItems (menu w)) = Some i \<and>
      enabled (items w i) \<and> actionHandler (items w i) = Some h \<longrightarrow>
      invoked (handleClick distance event w) = invoked w @ [(h, i)]) \<and>
   ((\<forall>k \<in> set (target event).
        \<not> (Some k \<noteq> rootElement (menu w) \<and> ''blocklyMenuItem'' \<in> classList (elems w k) \<and>
           (\<exists>j \<in> set (menuItems (menu w)). element (items w j) = Some k))) \<longrightarrow>
      invoked (handleClick distance event w) = invoked w)"
proof -
  let ?cleared = "w\<lparr>menu := (menu w)\<lparr>openingCoords := None\<rparr>\<rparr>"
  have sup: "click_suppressed distance event w \<Longrightarrow> handleClick distance event w = ?cleared"
    by (simp add: handleClick_def click_suppressed_def Let_def)
  have eq: "\<not> click_suppressed distance event w \<Longrightarrow> handleClick distance event w =
        (case getMenuItem w (target event) of
           None \<Rightarrow> ?cleared
         | Some i \<Rightarrow> performAction i ?cleared)"
    by (simp add: handleClick_def click_suppressed_def Let_def getMenuItem_openingCoords)
  have c1: "openingCoords (menu (handleClick distance event w)) = None"
    by (cases "click_suppressed distance event w")
       (simp_all add: sup eq performAction_menu split: option.splits)
  have c2: "click_suppressed distance event w \<longrightarrow>
      handleClick distance event w = ?cleared \<and>
      invoked (handleClick distance event w) = invoked w"
    by (simp add: sup)
  have inv: "\<And>i h. \<not> click_suppressed distance event w \<Longrightarrow>
      getMenuItem w (target event) = Some i \<Longrightarrow> enabled (items w i) \<Longrightarrow>
      actionHandler (items w i) = Some h \<Longrightarrow>
      invoked (handleClick distance event w) = invoked w @ [(h, i)]"
    by (simp add: eq performAction_invoked)
  have c3: "\<not> click_suppressed distance event w \<longrightarrow>
      handleClick distance event w =
        (case getMenuItem w (target event) of
           None \<Rightarrow> ?cleared
         | Some i \<Rightarrow> performAction i ?cleared) \<and>
      (\<forall>i h. getMenuItem w (target event) = Some i \<and> enabled (items w i) \<and>
             actionHandler (items w i) = Some h \<longrightarrow>
             invoked (handleClick distance event w) = invoked w @ [(h, i)])"
    using eq inv by blast
  have c4: "getMenuItem w (target event) =
     (case find (\<lambda>n. Some n = rootElement (menu w) \<or>
                   (''blocklyMenuItem'' \<in> classList (elems w n) \<and>
                    (\<exists>i \<in> set (menuItems (menu w)). element (items w i) = Some n)))
             (target event) of
        None \<Rightarrow> None
      | Some n \<Rightarrow>
          if Some n = rootElement (menu w) then None
          else find (\<lambda>i. element (items w i) = Some n) (menuItems (menu w)))"
    by (rule getMenuItem_nearest)
  have c5: "\<forall>i. getMenuItem w (target event) = Some i \<longrightarrow>
      i \<in> set (menuItems (menu w)) \<and>
      (\<exists>n \<in> set (target event). element (items w i) = Some n \<and>
         ''blocklyMenuItem'' \<in> classList (elems w n) \<and> Some n \<noteq> rootElement (menu w))"
    using getMenuItem_owner [of w "target event"] by blast
  have c6: "\<forall>pre n post i h.
      \<not> click_suppressed distance event w \<and> target event = pre @ n # post \<and>
      (\<forall>k \<in> set pre. Some k \<noteq> rootElement (menu w) \<and>
         \<not> (''blocklyMenuItem'' \<in> classList (elems w k) \<and>
            (\<exists>j \<in> set (menuItems (menu w)). element (items w j) = Some k))) \<and>
      Some n \<noteq> rootElement (menu w) \<and> ''blocklyMenuItem'' \<in> classList (elems w n) \<and>
      find (\<lambda>j. element (items w j) = Some n) (menuItems (menu w)) = Some i \<and>
      enabled (items w i) \<and> actionHandler (items w i) = Some h \<longrightarrow>
      invoked (handleClick distance event w) = invoked w @ [(h, i)]"
  proof (intro allI impI)
    fix pre n post i h
    assume a: "\<not> click_suppressed distance event w \<and> target event = pre @ n # post \<and>
      (\<forall>k \<in> set pre. Some k \<noteq> rootElement (menu w) \<and>
         \<not> (''blocklyMenuItem'' \<in> classList (elems w k) \<and>
            (\<exists>j \<in> set (menuItems (menu w)). element (items w j) = Some k))) \<and>
      Some n \<noteq> rootElement (menu w) \<and> ''blocklyMenuItem'' \<in> classList (elems w n) \<and>
      find (\<lambda>j. element (items w j) = Some n) (menuItems (menu w)) = Some i \<and>
      enabled (items w i) \<and> actionHandler (items w i) = Some h"
    then have "getMenuItem w (pre @ n # post) = Some i"
      by (intro getMenuItem_at) simp_all
    with a have "getMenuItem w (target event) = Some i" by simp
    with a show "invoked (handleClick distance event w) = invoked w @ [(h, i)]"
      by (intro inv) simp_all
  qed
  have c7: "(\<forall>k \<in> set (target event).
        \<not> (Some k \<noteq> rootElement (menu w) \<and> ''blocklyMenuItem'' \<in> classList (elems w k) \<and>
           (\<exists>j \<in> set (menuItems (menu w)). element (items w j) = Some k))) \<longrightarrow>
      invoked (handleClick distance event w) = invoked w"
  proof
    assume a: "\<forall>k \<in> set (target event).
        \<not> (Some k \<noteq> rootElement (menu w) \<and> ''blocklyMenuItem'' \<in> classList (elems w k) \<and>
           (\<exists>j \<in> set (menuItems (menu w)). element (items w j) = Some k))"
    have "getMenuItem w (target event) = None"
    proof (cases "getMenuItem w (target event)")
      case None
      then show ?thesis .
    next
      case (Some i)
      with c5 a show ?thesis by blast
    qed
    then show "invoked (handleClick distance event w) = invoked w"
      by (cases "click_suppressed distance event w") (simp_all add: sup eq)
  qed
  from c1 c2 c3 c4 c5 c6 c7 show ?thesis by blast
qed

theorem click_routing_witness:
  "click_suppressed Coordinate_distance clickNear demoOpened \<and>
   invoked (handleClick Coordinate_distance clickNear demoOpened) = [] \<and>
   openingCoords (menu (handleClick Coordinate_distance clickNear demoOpened)) = None \<and>
   \<not> click_suppressed Coordinate_distance clickFar demoOpened \<and>
   invoked (handleClick Coordinate_distance clickFar demoOpened) = [(100, 0)] \<and>
   openingCoords (menu (handleClick Coordinate_distance clickFar demoOpened)) = None \<and>
   \<not> click_suppressed Coordinate_distance clickThird demoOpened \<and>
   target clickThird = [] @ 12 # [1] \<and>
   invoked (handleClick Coordinate_distance clickThird demoOpened) = [(102, 2)] \<and>
   getMenuItem demoOpened (target clickDisabled) = Some 1 \<and>
   invoked (handleClick Coordinate_distance clickDisabled demoOpened) = [] \<and>
   getMenuItem demoOpened (target clickBorder) = None \<and>
   invoked (handleClick Coordinate_distance clickBorder demoOpened) = []"
proof -
  have near: "click_suppressed Coordinate_distance clickNear demoOpened"
    by (simp add: click_suppressed_def Coordinate_distance_def clickNear_def demoOpened_def
        demo_simps)
  have far: "\<not> click_suppressed Coordinate_distance clickFar demoOpened"
    by (simp add: click_suppressed_def Coordinate_distance_def clickFar_def demoOpened_def
        demo_simps)
  have away: "\<not> click_suppressed Coordinate_distance clickThird demoOpened \<and>
      \<not> click_suppressed Coordinate_distance clickDisabled demoOpened \<and>
      \<not> click_suppressed Coordinate_distance clickBorder demoOpened"
    by (simp add: click_suppressed_def Coordinate_distance_def clickThird_def clickDisabled_def
        clickBorder_def demoOpened_def demo_simps)
  have st: "invoked demoOpened = [] \<and> rootElement (menu demoOpened) = Some 1 \<and>
      menuItems (menu demoOpened) = [0, 1, 2, 3]"
    by (simp add: demoOpened_def demo_simps)
  have first: "target clickFar = [20] @ 10 # [1] \<and>
      ''blocklyMenuItem'' \<notin> classList (elems demoOpened 20) \<and>
      ''blocklyMenuItem'' \<in> classList (elems demoOpened 10) \<and>
      find (\<lambda>j. element (items demoOpened j) = Some 10) (menuItems (menu demoOpened)) = Some 0 \<and>
      enabled (items demoOpened 0) \<and> actionHandler (items demoOpened 0) = Some 100"
    by (simp add: clickFar_def demoOpened_def demo_simps)
  have third: "target clickThird = [] @ 12 # [1] \<and>
      ''blocklyMenuItem'' \<in> classList (elems demoOpened 12) \<and>
      find (\<lambda>j. element (items demoOpened j) = Some 12) (menuItems (menu demoOpened)) = Some 2 \<and>
      enabled (items demoOpened 2) \<and> actionHandler (items demoOpened 2) = Some 102"
    by (simp add: clickThird_def demoOpened_def demo_simps)
  have disabled: "getMenuItem demoOpened (target clickDisabled) = Some 1 \<and>
      \<not> enabled (items demoOpened 1)"
    by (simp add: clickDisabled_def demoOpened_def demo_simps)
  have border: "target clickBorder = [1]"
    by (simp add: clickBorder_def)
  note routed = click_routing [THEN conjunct2, THEN conjunct2, THEN conjunct2, THEN conjunct2,
      THEN conjunct2, THEN conjunct1, rule_format]
  have n: "invoked (handleClick Coordinate_distance clickNear demoOpened) = [] \<and>
      openingCoords (menu (handleClick Coordinate_distance clickNear demoOpened)) = None"
    using near st click_routing [of Coordinate_distance clickNear demoOpened] by simp
  have f: "invoked (handleClick Coordinate_distance clickFar demoOpened) = [(100, 0)]"
    using routed [of Coordinate_distance clickFar demoOpened "[20]" 10 "[1]" 0 100] far st first
    by simp
  have f': "openingCoords (menu (handleClick Coordinate_distance clickFar demoOpened)) = None"
    using click_routing [of Coordinate_distance clickFar demoOpened] by simp
  have t: "invoked (handleClick Coordinate_distance clickThird demoOpened) = [(102, 2)]"
    using routed [of Coordinate_distance clickThird demoOpened "[]" 12 "[1]" 2 102] away st third
    by simp
  have d: "invoked (handleClick Coordinate_distance clickDisabled demoOpened) = []"
    using click_routing [of Coordinate_distance clickDisabled demoOpened] away st disabled
    by (simp add: performAction_def)
  have b: "getMenuItem demoOpened (target clickBorder) = None \<and>
      invoked (handleClick Coordinate_distance clickBorder demoOpened) = []"
    using click_routing [of Coordinate_distance clickBorder demoOpened] st border
    by simp
  show ?thesis
    using near far away n f f' third t disabled d b by simp
qed

text \<open>
  Claim C7. A key event with shift, ctrl, meta or alt held, or delivered to an empty menu,
  changes nothing and is not marked: neither \<open>stopPropagation\<close> nor
  \<open>preventDefault\<close> is called. The same holds for a key the menu does not handle.
\<close>

theorem modified_keys_ignored:
  "(isEmpty w \<or> shiftKey event \<or> ctrlKey event \<or> metaKey event \<or> altKey event \<longrightarrow>
      handleKeyEvent event w = Some (None, w, event)) \<and>
   (keyCode event \<notin> {ENTER, SPACE, UP, DOWN, PAGE_UP, HOME, PAGE_DOWN, END} \<longrightarrow>
      handleKeyEvent event w = Some (None, w, event))"
  by (simp add: handleKeyEvent_def)

theorem modified_keys_ignored_witness:
  "handleKeyEvent (keyDown\<lparr>ctrlKey := True\<rparr>) demoMenu =
     Some (None, demoMenu, keyDown\<lparr>ctrlKey := True\<rparr>) \<and>
   isEmpty (demoMenu\<lparr>menu := Menu_new\<rparr>) \<and>
   handleKeyEvent keyDown (demoMenu\<lparr>menu := Menu_new\<rparr>) =
     Some (None, demoMenu\<lparr>menu := Menu_new\<rparr>, keyDown) \<and>
   handleKeyEvent (keyDown\<lparr>keyCode := ESC\<rparr>) demoMenu =
     Some (None, demoMenu, keyDown\<lparr>keyCode := ESC\<rparr>)"
  using modified_keys_ignored [of demoMenu "keyDown\<lparr>ctrlKey := True\<rparr>"]
    modified_keys_ignored [of "demoMenu\<lparr>menu := Menu_new\<rparr>" keyDown]
    modified_keys_ignored [of demoMenu "keyDown\<lparr>keyCode := ESC\<rparr>"]
  by (simp add: isEmpty_def Menu_new_def keyDown_def)

text \<open>
  Claim C6, as stated, fails: on a disabled item \<open>setHighlighted\<close> is not a no-op,
  it writes the highlight flag.
\<close>

theorem disabled_setHighlighted_counterexample:
  "\<not> enabled (items demoMenu 1) \<and>
   highlight (items (MenuItem_setHighlighted 1 True demoMenu) 1) \<noteq> highlight (items demoMenu 1)"
  by (simp add: setHighlighted_items demo_simps)

text \<open>
  Claim C6, amended. On a disabled item \<open>setHighlighted(b)\<close> changes no DOM class and
  nothing but the item's highlight flag, which it sets to \<open>b\<close>; on an enabled item
  whose DOM exists it sets the flag and adds or removes the highlight class.
\<close>

theorem setHighlighted_effect:
  "(\<not> enabled (items w i) \<longrightarrow>
      MenuItem_setHighlighted i b w = w\<lparr>items := (items w)(i := (items w i)\<lparr>highlight := b\<rparr>)\<rparr> \<and>
      elems (MenuItem_setHighlighted i b w) = elems w) \<and>
   (enabled (items w i) \<and> element (items w i) = Some el \<longrightarrow>
      highlight (items (MenuItem_setHighlighted i b w) i) = b \<and>
      classList (elems (MenuItem_setHighlighted i b w) el) =
        (if b then insert ''blocklyMenuItemHighlight'' (classList (elems w el))
         else classList (elems w el) - {''blocklyMenuItemHighlight''}))"
  by (simp add: MenuItem_setHighlighted_def Let_def addClass_def removeClass_def
      split: option.splits)

theorem setHighlighted_effect_witness:
  "\<not> enabled (items demoMenu 1) \<and>
   elems (MenuItem_setHighlighted 1 True demoMenu) = elems demoMenu \<and>
   highlight (items (MenuItem_setHighlighted 1 True demoMenu) 1) \<and>
   enabled (items demoMenu 2) \<and> element (items demoMenu 2) = Some 12 \<and>
   classList (elems (MenuItem_setHighlighted 2 True demoMenu) 12) =
     {''blocklyMenuItemHighlight'', ''blocklyMenuItem''}"
  using setHighlighted_effect [where w = demoMenu and i = 1 and b = True] setHighlighted_effect [where w = demoMenu and i = 2 and el = 12 and b = True]
  by (simp add: demo_simps)

section \<open>Properties of MarkerManager\<close>

lemma takeWhile_upto: "c \<notin> set xs \<Longrightarrow> takeWhile (\<lambda>k. k \<noteq> c) (xs @ c # ys) = xs"
  by (induction xs) auto

lemma dropWhile_upto: "c \<notin> set xs \<Longrightarrow> dropWhile (\<lambda>k. k \<noteq> c) (xs @ c # ys) = c # ys"
  by (induction xs) auto

lemma insertBefore_last:
  assumes "distinct children" and "children \<noteq> []" and "last children = c" and "n \<noteq> c"
  shows "insertBefore n c children = Inr (butlast (removeAll n children) @ [n, c])"
proof -
  from assms(2,3) have ch: "children = butlast children @ [c]"
    by (metis append_butlast_last_id)
  with assms(1) have notin: "c \<notin> set (butlast children)"
    by (metis distinct_append distinct.simps(2) disjoint_iff list.set_intros(1))
  have rm: "removeAll n children = removeAll n (butlast children) @ [c]"
    using assms(4) by (subst ch) simp
  have c_in: "c \<in> set children" using assms(2,3) by (metis last_in_set)
  have notin': "c \<notin> set (removeAll n (butlast children))" using notin by simp
  have tw: "takeWhile (\<lambda>k. k \<noteq> c) (removeAll n (butlast children) @ [c]) =
      removeAll n (butlast children)"
    by (rule takeWhile_upto [OF notin'])
  have dw: "dropWhile (\<lambda>k. k \<noteq> c) (removeAll n (butlast children) @ [c]) = [c]"
    by (rule dropWhile_upto [OF notin'])
  show ?thesis
    using assms(4) c_in by (simp add: insertBefore_def rm tw dw)
qed

lemma insertBefore_keeps:
  assumes "distinct children" and "children \<noteq> []" and "last children = c"
  shows "\<exists>children'. insertBefore n c children = Inr children' \<and> distinct children' \<and>
           children' \<noteq> [] \<and> last children' = c"
proof (cases "n = c")
  case True
  have "c \<in> set children" using assms(2,3) by (metis last_in_set)
  with True assms show ?thesis by (simp add: insertBefore_def)
next
  case False
  from assms(2,3) have ch: "children = butlast children @ [c]"
    by (metis append_butlast_last_id)
  with assms(1) have notin: "c \<notin> set (butlast children)"
    by (metis distinct_append distinct.simps(2) disjoint_iff list.set_intros(1))
  have rm: "removeAll n children = removeAll n (butlast children) @ [c]"
    using False by (subst ch) simp
  have "distinct (removeAll n children)" using assms(1) by (simp add: distinct_removeAll)
  then have "distinct (butlast (removeAll n children) @ [n, c])"
    using False notin by (auto simp add: rm)
  with insertBefore_last [OF assms False] show ?thesis by simp
qed

lemma appendChild_last:
  "distinct children \<Longrightarrow>
   distinct (appendChild n children) \<and> appendChild n children \<noteq> [] \<and>
   last (appendChild n children) = n"
  by (simp add: appendChild_def distinct_removeAll)

lemma filter_keeps_last:
  "children \<noteq> [] \<Longrightarrow> P (last children) \<Longrightarrow>
   filter P children \<noteq> [] \<and> last (filter P children) = last children"
  by (induction children) (auto split: if_splits)

lemma cursor_last_iff:
  "cursor_last s =
     (\<forall>children. blockCanvas s = Some children \<longrightarrow>
        distinct children \<and>
        (\<forall>c. cursorSvg' (manager s) = Some c \<longrightarrow> children \<noteq> [] \<and> last children = c))"
  by (auto simp add: cursor_last_def split: option.splits)

lemma detach_cursor_last:
  assumes "cursor_last s" and "\<forall>c. cursorSvg' (manager s) = Some c \<longrightarrow> c \<notin> set ns"
  shows "cursor_last (detach ns s)"
  using assms filter_keeps_last [of _ "\<lambda>n. n \<notin> set ns"]
  by (auto simp add: cursor_last_iff detach_def)

lemma update_values: "snd ` set (AList.update k v al) \<subseteq> insert v (snd ` set al)"
  by (induction al) auto

lemma delete_values: "snd ` set (AList.delete k al) \<subseteq> snd ` set al"
  by (auto simp add: AList.delete_eq)

lemma cursor_last_same:
  "blockCanvas s' = blockCanvas s \<Longrightarrow> cursorSvg' (manager s') = cursorSvg' (manager s) \<Longrightarrow>
   cursor_last s' = cursor_last s"
  by (simp add: cursor_last_iff)

lemma unregisterMarker_known:
  assumes "map_of (markers (manager s)) id' = Some old"
  shows "unregisterMarker D id' s =
     (None, (detach (D old) (s\<lparr>disposals := disposals s @ [MarkerDisposed old]\<rparr>))
        \<lparr>manager := (manager s)\<lparr>markers := AList.delete id' (markers (manager s))\<rparr>\<rparr>)"
  using assms by (simp add: unregisterMarker_def Let_def detach_def)

lemma setMarkerSvg_keeps:
  assumes "cursor_last s"
  shows "\<exists>s'. setMarkerSvg (Some svg) s = (None, s') \<and> cursor_last s' \<and>
           manager s' = manager s \<and> disposals s' = disposals s \<and> hasDrawer s' = hasDrawer s"
proof (cases "blockCanvas s")
  case None
  with assms show ?thesis by (simp add: setMarkerSvg_def)
next
  case (Some children)
  show ?thesis
  proof (cases "cursorSvg' (manager s)")
    case None
    with Some assms appendChild_last [of children svg] show ?thesis
      by (simp add: setMarkerSvg_def cursor_last_iff)
  next
    case c: (Some c)
    with Some assms have d: "distinct children" "children \<noteq> []" "last children = c"
      by (simp_all add: cursor_last_iff)
    from insertBefore_keeps [OF d, of svg] obtain children' where
      "insertBefore svg c children = Inr children'" "distinct children'"
      "children' \<noteq> []" "last children' = c" by blast
    with Some c show ?thesis
      by (simp add: setMarkerSvg_def cursor_last_iff)
  qed
qed

lemma registerMarker_keeps:
  assumes inv: "cursor_last s"
    and safe: "\<forall>old c. map_of (markers (manager s)) id' = Some old \<and>
                 cursorSvg' (manager s) = Some c \<longrightarrow> c \<notin> set (D old)"
  shows "\<exists>s'. registerMarker D id' m svg s = (None, s') \<and> cursor_last s' \<and>
           cursorSvg' (manager s') = cursorSvg' (manager s) \<and>
           snd ` set (markers (manager s')) \<subseteq> insert m (snd ` set (markers (manager s)))"
proof -
  define s1 where "s1 = snd (if map_of (markers (manager s)) id' \<noteq> None
     then unregisterMarker D id' s else (None, s))"
  have un: "(if map_of (markers (manager s)) id' \<noteq> None
     then unregisterMarker D id' s else (None, s)) = (None, s1)"
    by (auto simp add: s1_def unregisterMarker_known)
  have s1: "cursor_last s1 \<and> cursorSvg' (manager s1) = cursorSvg' (manager s) \<and>
      snd ` set (markers (manager s1)) \<subseteq> snd ` set (markers (manager s))"
  proof (cases "map_of (markers (manager s)) id'")
    case None
    with inv show ?thesis by (simp add: s1_def)
  next
    case (Some old)
    have "cursor_last (detach (D old) (s\<lparr>disposals := disposals s @ [MarkerDisposed old]\<rparr>))"
      using inv safe Some
      by (intro detach_cursor_last) (auto simp add: cursor_last_iff split: option.splits)
    moreover have "cursor_last ((detach (D old) (s\<lparr>disposals := disposals s @ [MarkerDisposed old]\<rparr>))
        \<lparr>manager := (manager s)\<lparr>markers := AList.delete id' (markers (manager s))\<rparr>\<rparr>) =
        cursor_last (detach (D old) (s\<lparr>disposals := disposals s @ [MarkerDisposed old]\<rparr>))"
      by (rule cursor_last_same) (simp_all add: detach_def)
    ultimately have "cursor_last ((detach (D old) (s\<lparr>disposals := disposals s @ [MarkerDisposed old]\<rparr>))
        \<lparr>manager := (manager s)\<lparr>markers := AList.delete id' (markers (manager s))\<rparr>\<rparr>)"
      by simp
    with Some delete_values [of id' "markers (manager s)"] show ?thesis
      by (simp add: s1_def unregisterMarker_known)
  qed
  let ?s2 = "s1\<lparr>hasDrawer := (hasDrawer s1)(m := True)\<rparr>"
  from s1 have "cursor_last ?s2" by (simp add: cursor_last_same [of ?s2 s1])
  from setMarkerSvg_keeps [OF this, of svg] obtain s3 where
    s3: "setMarkerSvg (Some svg) ?s2 = (None, s3)" "cursor_last s3" "manager s3 = manager s1"
    by auto
  let ?s4 = "s3\<lparr>manager := (manager s3)
                  \<lparr>markers := AList.update id' m (markers (manager s3))\<rparr>\<rparr>"
  have r: "registerMarker D id' m svg s = (None, ?s4)"
    unfolding registerMarker_def un by (simp add: s3 Let_def)
  have "cursor_last ?s4" using s3(2) by (simp add: cursor_last_same [of ?s4 s3])
  moreover have "cursorSvg' (manager ?s4) = cursorSvg' (manager s)"
    using s3(3) s1 by simp
  moreover have "snd ` set (markers (manager ?s4)) \<subseteq> insert m (snd ` set (markers (manager s)))"
    using update_values [of id' m "markers (manager s1)"] s1 s3(3) by auto
  ultimately show ?thesis using r by blast
qed

lemma setCursor_keeps:
  assumes "cursor_last s"
  shows "cursor_last (setCursor D (Some c) svg s) \<and>
         cursorSvg' (manager (setCursor D (Some c) svg s)) = Some svg \<and>
         markers (manager (setCursor D (Some c) svg s)) = markers (manager s)"
proof -
  have d: "\<And>ns. case blockCanvas (detach ns s) of None \<Rightarrow> True | Some ch \<Rightarrow> distinct ch"
    using assms by (auto simp add: cursor_last_iff detach_def split: option.splits)
  show ?thesis
    using assms d appendChild_last
    by (auto simp add: setCursor_def setCursorSvg_def Let_def cursor_last_iff detach_def
        split: option.splits)
qed

lemma markerRun_keeps:
  "cursor_last s \<Longrightarrow> keeps_cursor D ops s \<Longrightarrow>
   \<exists>s'. markerRun D ops s = Inr s' \<and> cursor_last s'"
proof (induction ops arbitrary: s)
  case Nil
  then show ?case by simp
next
  case (Cons op ops)
  show ?case
  proof (cases op)
    case (RegisterMarker id' m svg)
    have safe: "\<forall>old c. map_of (markers (manager s)) id' = Some old \<and>
                 cursorSvg' (manager s) = Some c \<longrightarrow> c \<notin> set (D old)"
    proof (intro allI impI)
      fix old c
      assume a: "map_of (markers (manager s)) id' = Some old \<and> cursorSvg' (manager s) = Some c"
      then have "old \<in> snd ` set (markers (manager s))"
        by (metis map_of_SomeD image_eqI snd_conv)
      with a Cons.prems(2) show "c \<notin> set (D old)"
        by (auto simp add: keeps_cursor_def)
    qed
    from registerMarker_keeps [OF Cons.prems(1) safe, of m svg] obtain s1 where
      s1: "registerMarker D id' m svg s = (None, s1)" "cursor_last s1"
        "cursorSvg' (manager s1) = cursorSvg' (manager s)"
        "snd ` set (markers (manager s1)) \<subseteq> insert m (snd ` set (markers (manager s)))"
      by blast
    have "keeps_cursor D ops s1"
      using Cons.prems(2) s1(3,4) RegisterMarker
      by (auto simp add: keeps_cursor_def split: option.splits)
    from Cons.IH [OF s1(2) this] s1(1) RegisterMarker show ?thesis by simp
  next
    case (SetCursor c svg)
    let ?s1 = "setCursor D (Some c) svg s"
    from setCursor_keeps [OF Cons.prems(1), of D c svg]
    have s1: "cursor_last ?s1" "cursorSvg' (manager ?s1) = Some svg"
      "markers (manager ?s1) = markers (manager s)" by simp_all
    have "keeps_cursor D ops ?s1"
      using Cons.prems(2) s1(2,3) SetCursor
      by (auto simp add: keeps_cursor_def split: option.splits)
    from Cons.IH [OF s1(1) this] SetCursor show ?thesis by simp
  qed
qed

lemma registerMarker_unfold:
  "registerMarker D id' m svg s =
     (let gone = (case map_of (markers (manager s)) id' of None \<Rightarrow> [] | Some old \<Rightarrow> D old);
          s2 = (case map_of (markers (manager s)) id' of
                  None \<Rightarrow> s
                | Some old \<Rightarrow>
                    (detach (D old) (s\<lparr>disposals := disposals s @ [MarkerDisposed old]\<rparr>))
                      \<lparr>manager := (manager s)\<lparr>markers := AList.delete id' (markers (manager s))\<rparr>\<rparr>)
                \<lparr>hasDrawer := (hasDrawer s)(m := True)\<rparr>
      in case setMarkerSvg (Some svg) s2 of
           (Some e, s3) \<Rightarrow> (Some e, s3)
         | (None, s3) \<Rightarrow>
             (None, s3\<lparr>manager := (manager s3)
                \<lparr>markers := AList.update id' m (markers (manager s3))\<rparr>\<rparr>))"
  by (cases "map_of (markers (manager s)) id'")
     (simp_all add: registerMarker_def unregisterMarker_known Let_def detach_def)

lemma registerMarker_before_cursor:
  assumes inv: "cursor_last s" and canvas: "blockCanvas s = Some children"
    and cur: "cursorSvg' (manager s) = Some c" and ne: "svg \<noteq> c"
    and gone: "gone = (case map_of (markers (manager s)) id' of None \<Rightarrow> [] | Some old \<Rightarrow> D old)"
    and safe: "c \<notin> set gone"
  shows "fst (registerMarker D id' m svg s) = None \<and>
         blockCanvas (snd (registerMarker D id' m svg s)) =
           Some (butlast (removeAll svg (filter (\<lambda>n. n \<notin> set gone) children)) @ [svg, c])"
proof -
  let ?base = "filter (\<lambda>n. n \<notin> set gone) children"
  from inv canvas cur have d: "distinct children" "children \<noteq> []" "last children = c"
    by (simp_all add: cursor_last_iff)
  from filter_keeps_last [of children "\<lambda>n. n \<notin> set gone"] d safe
  have b: "distinct ?base" "?base \<noteq> []" "last ?base = c" by simp_all
  have ins: "insertBefore svg c ?base = Inr (butlast (removeAll svg ?base) @ [svg, c])"
    by (rule insertBefore_last [OF b ne])
  show ?thesis
  proof (cases "map_of (markers (manager s)) id'")
    case None
    with gone have "?base = children" by simp
    with ins None canvas cur show ?thesis
      by (simp add: registerMarker_unfold setMarkerSvg_def)
  next
    case (Some old)
    with gone have "gone = D old" by simp
    with ins Some canvas cur show ?thesis
      by (simp add: registerMarker_unfold setMarkerSvg_def detach_def)
  qed
qed

lemma registerMarker_appends:
  assumes canvas: "blockCanvas s = Some children"
    and cur: "cursorSvg' (manager s) = None"
    and gone: "gone = (case map_of (markers (manager s)) id' of None \<Rightarrow> [] | Some old \<Rightarrow> D old)"
  shows "fst (registerMarker D id' m svg s) = None \<and>
         blockCanvas (snd (registerMarker D id' m svg s)) =
           Some (removeAll svg (filter (\<lambda>n. n \<notin> set gone) children) @ [svg])"
proof (cases "map_of (markers (manager s)) id'")
  case None
  with gone canvas cur show ?thesis
    by (simp add: registerMarker_unfold setMarkerSvg_def appendChild_def)
next
  case (Some old)
  with gone canvas cur show ?thesis
    by (simp add: registerMarker_unfold setMarkerSvg_def appendChild_def detach_def)
qed

lemma setCursor_appends:
  assumes canvas: "blockCanvas s = Some children"
    and gone: "gone = (case cursor' (manager s) of
                         None \<Rightarrow> []
                       | Some old \<Rightarrow> if hasDrawer s old then D old else [])"
  shows "cursorSvg' (manager (setCursor D (Some cur) svg s)) = Some svg \<and>
         blockCanvas (setCursor D (Some cur) svg s) =
           Some (removeAll svg (filter (\<lambda>n. n \<notin> set gone) children) @ [svg])"
  using assms
  by (auto simp add: setCursor_def setCursorSvg_def Let_def appendChild_def detach_def
      split: option.splits)

lemma demo_run:
  "(case markerRun demoDetached demoOps demoWorkspace of
      Inl e \<Rightarrow> None | Inr s \<Rightarrow> Some (blockCanvas s, cursorSvg' (manager s))) =
   Some (Some [50, 51, 102, 103, 108], Some 108)"
  by code_simp

text \<open>
  Claim C2. From a state where the cursor's node is the last child of the block canvas
  (as in a new manager, which has no cursor SVG), every sequence of \<open>registerMarker\<close>
  and \<open>setCursor\<close> calls runs without an exception and leaves the cursor's node the last
  child. On a workspace with a block canvas, \<open>registerMarker\<close> puts the marker's node
  directly before the cursor's node when a cursor SVG is set and at the end otherwise, and
  \<open>setCursor\<close> puts the cursor's node at the end.
\<close>

theorem cursor_painted_last:
  assumes "cursor_last s"
  shows "(keeps_cursor D ops s \<longrightarrow> (\<exists>s'. markerRun D ops s = Inr s' \<and> cursor_last s')) \<and>
    (\<forall>children. blockCanvas s = Some children \<longrightarrow>
       (\<forall>c. cursorSvg' (manager s) = Some c \<and> svg \<noteq> c \<and>
            c \<notin> set (case map_of (markers (manager s)) id' of None \<Rightarrow> [] | Some old \<Rightarrow> D old) \<longrightarrow>
          fst (registerMarker D id' m svg s) = None \<and>
          blockCanvas (snd (registerMarker D id' m svg s)) =
            Some (butlast (removeAll svg (filter (\<lambda>n. n \<notin> set
                   (case map_of (markers (manager s)) id' of None \<Rightarrow> [] | Some old \<Rightarrow> D old))
                   children)) @ [svg, c])) \<and>
       (cursorSvg' (manager s) = None \<longrightarrow>
          fst (registerMarker D id' m svg s) = None \<and>
          blockCanvas (snd (registerMarker D id' m svg s)) =
            Some (removeAll svg (filter (\<lambda>n. n \<notin> set
                   (case map_of (markers (manager s)) id' of None \<Rightarrow> [] | Some old \<Rightarrow> D old))
                   children) @ [svg])) \<and>
       cursorSvg' (manager (setCursor D (Some cur) svg s)) = Some svg \<and>
       blockCanvas (setCursor D (Some cur) svg s) =
         Some (removeAll svg (filter (\<lambda>n. n \<notin> set
                (case cursor' (manager s) of
                   None \<Rightarrow> []
                 | Some old \<Rightarrow> if hasDrawer s old then D old else []))
                children) @ [svg]))"
proof (intro conjI impI allI)
  assume "keeps_cursor D ops s"
  with assms show "\<exists>s'. markerRun D ops s = Inr s' \<and> cursor_last s'"
    by (rule markerRun_keeps)
next
  fix children c
  assume canvas: "blockCanvas s = Some children"
    and c: "cursorSvg' (manager s) = Some c \<and> svg \<noteq> c \<and>
            c \<notin> set (case map_of (markers (manager s)) id' of None \<Rightarrow> [] | Some old \<Rightarrow> D old)"
  from registerMarker_before_cursor [OF assms canvas, where c = c and svg = svg and id' = id' and D = D and m = m] c
  show "fst (registerMarker D id' m svg s) = None"
    and "blockCanvas (snd (registerMarker D id' m svg s)) =
            Some (butlast (removeAll svg (filter (\<lambda>n. n \<notin> set
                   (case map_of (markers (manager s)) id' of None \<Rightarrow> [] | Some old \<Rightarrow> D old))
                   children)) @ [svg, c])"
    by simp_all
next
  fix children
  assume canvas: "blockCanvas s = Some children" and c: "cursorSvg' (manager s) = None"
  from registerMarker_appends [OF canvas c, where id' = id' and D = D and m = m and svg = svg]
  show "fst (registerMarker D id' m svg s) = None"
    and "blockCanvas (snd (registerMarker D id' m svg s)) =
            Some (removeAll svg (filter (\<lambda>n. n \<notin> set
                   (case map_of (markers (manager s)) id' of None \<Rightarrow> [] | Some old \<Rightarrow> D old))
                   children) @ [svg])"
    by simp_all
next
  fix children
  assume canvas: "blockCanvas s = Some children"
  from setCursor_appends [OF canvas, where D = D and cur = cur and svg = svg]
  show "cursorSvg' (manager (setCursor D (Some cur) svg s)) = Some svg"
    and "blockCanvas (setCursor D (Some cur) svg s) =
         Some (removeAll svg (filter (\<lambda>n. n \<notin> set
                (case cursor' (manager s) of
                   None \<Rightarrow> []
                 | Some old \<Rightarrow> if hasDrawer s old then D old else []))
                children) @ [svg])"
    by simp_all
qed

theorem cursor_painted_last_witness:
  "cursor_last demoWorkspace \<and> keeps_cursor demoDetached demoOps demoWorkspace \<and>
   (\<exists>s'. markerRun demoDetached demoOps demoWorkspace = Inr s' \<and> cursor_last s') \<and>
   blockCanvas demoWorkspace = Some [50, 51] \<and> cursorSvg' (manager demoWorkspace) = None \<and>
   blockCanvas (snd (registerMarker demoDetached ''m1'' 1 101 demoWorkspace)) =
     Some [50, 51, 101] \<and>
   blockCanvas (setCursor demoDetached (Some 9) 109 demoWorkspace) = Some [50, 51, 109] \<and>
   cursor_last demoWithCursor \<and> blockCanvas demoWithCursor = Some [50, 51, 109] \<and>
   cursorSvg' (manager demoWithCursor) = Some 109 \<and>
   blockCanvas (snd (registerMarker demoDetached ''m1'' 1 101 demoWithCursor)) =
     Some [50, 51, 101, 109]"
proof -
  have i0: "cursor_last demoWorkspace"
    by (simp add: cursor_last_def demoWorkspace_def MarkerManager_new_def)
  have k0: "keeps_cursor demoDetached demoOps demoWorkspace"
    by (simp add: keeps_cursor_def demoOps_def demoDetached_def demoWorkspace_def
        MarkerManager_new_def)
  have c0: "blockCanvas demoWorkspace = Some [50, 51] \<and> cursorSvg' (manager demoWorkspace) = None \<and>
      map_of (markers (manager demoWorkspace)) ''m1'' = None \<and> cursor' (manager demoWorkspace) = None"
    by (simp add: demoWorkspace_def MarkerManager_new_def)
  have c1: "blockCanvas demoWithCursor = Some [50, 51, 109] \<and>
      cursorSvg' (manager demoWithCursor) = Some 109 \<and>
      map_of (markers (manager demoWithCursor)) ''m1'' = None"
    by (simp add: demoWithCursor_def setCursor_def setCursorSvg_def Let_def appendChild_def
        demoWorkspace_def MarkerManager_new_def)
  have i1: "cursor_last demoWithCursor"
    using c1 by (simp add: cursor_last_def)
  note t0 = cursor_painted_last [OF i0, where D = demoDetached and ops = demoOps
      and svg = 101 and id' = "''m1''" and m = 1]
  note t0' = cursor_painted_last [OF i0, where D = demoDetached and ops = "[]"
      and svg = 109 and cur = 9]
  note t1 = cursor_painted_last [OF i1, where D = demoDetached and ops = "[]"
      and svg = 101 and id' = "''m1''" and m = 1]
  have r0: "\<exists>s'. markerRun demoDetached demoOps demoWorkspace = Inr s' \<and> cursor_last s'"
    using t0 k0 by blast
  have a0: "blockCanvas (snd (registerMarker demoDetached ''m1'' 1 101 demoWorkspace)) =
     Some [50, 51, 101]"
    using t0 c0 by simp
  have b0: "blockCanvas (setCursor demoDetached (Some 9) 109 demoWorkspace) = Some [50, 51, 109]"
    using t0' c0 by simp
  have a1: "blockCanvas (snd (registerMarker demoDetached ''m1'' 1 101 demoWithCursor)) =
     Some [50, 51, 101, 109]"
    using t1 c1 by simp
  show ?thesis using i0 k0 r0 c0 a0 b0 i1 c1 a1 by simp
qed

text \<open>
  Claim C5. \<open>unregisterMarker(id)\<close> throws an \<open>Error\<close> whose message names the ID
  when no marker is registered under it and changes nothing; when one is registered it
  disposes that marker and removes the entry, so that \<open>getMarker(id)\<close> is \<open>null\<close>
  afterwards, the other entries being kept.
\<close>

theorem unregister_marker:
  "(getMarker id' s = None \<longrightarrow>
      unregisterMarker D id' s = (Some (Error (unregisterMessage id')), s) \<and>
      (\<exists>rest. unregisterMessage id' = ''Marker with ID '' @ id' @ rest)) \<and>
   (\<forall>m. getMarker id' s = Some m \<longrightarrow>
      fst (unregisterMarker D id' s) = None \<and>
      disposals (snd (unregisterMarker D id' s)) = disposals s @ [MarkerDisposed m] \<and>
      getMarker id' (snd (unregisterMarker D id' s)) = None \<and>
      (\<forall>k. k \<noteq> id' \<longrightarrow> getMarker k (snd (unregisterMarker D id' s)) = getMarker k s))"
  by (auto simp add: getMarker_def unregisterMarker_def unregisterMessage_def Let_def detach_def
      AList.delete_conv')

theorem unregister_marker_witness:
  "getMarker ''m2'' demoRegistered = None \<and>
   unregisterMarker demoDetached ''m2'' demoRegistered =
     (Some (Error (unregisterMessage ''m2'')), demoRegistered) \<and>
   getMarker ''m1'' demoRegistered = Some 1 \<and>
   fst (unregisterMarker demoDetached ''m1'' demoRegistered) = None \<and>
   disposals (snd (unregisterMarker demoDetached ''m1'' demoRegistered)) = [MarkerDisposed 1] \<and>
   getMarker ''m1'' (snd (unregisterMarker demoDetached ''m1'' demoRegistered)) = None"
proof -
  have g: "getMarker ''m2'' demoRegistered = None \<and> getMarker ''m1'' demoRegistered = Some 1 \<and>
      disposals demoRegistered = []"
    by (simp add: getMarker_def demoRegistered_def registerMarker_def setMarkerSvg_def
        Let_def appendChild_def demoWorkspace_def MarkerManager_new_def)
  show ?thesis
    using g unregister_marker [of "''m2''" demoRegistered demoDetached]
      unregister_marker [of "''m1''" demoRegistered demoDetached]
    by simp
qed

section \<open>Properties of the default shortcuts\<close>

lemmas shortcut_defs =
  registerDefaultShortcuts_0_def registerDefaultShortcuts_1_def
  registerEscape_0_def registerDelete_0_def registerCopy_0_def registerCut_0_def
  registerPaste_0_def registerUndo_0_def registerRedo_0_def
  registerEscape_1_def registerDelete_1_def registerCopy_1_def registerCut_1_def
  registerPaste_1_def registerUndo_1_def registerRedo_1_def
  escapeShortcut_0_def deleteShortcut_0_def copyShortcut_0_def cutShortcut_0_def
  pasteShortcut_0_def undoShortcut_0_def redoShortcut_0_def
  escapeShortcut_1_def deleteShortcut_1_def copyShortcut_1_def cutShortcut_1_def
  pasteShortcut_1_def undoShortcut_1_def redoShortcut_1_def
  register_def Variants_def Key_def

text \<open>
  Claim C8. In both files the callback of the Delete/Backspace shortcut calls
  \<open>event.preventDefault()\<close> before anything else, on every invocation. Then, with a
  gesture in progress, it returns \<open>false\<close> and deletes nothing; otherwise it deletes the
  current selection and returns \<open>true\<close>.
\<close>

theorem delete_prevents_default_first:
  "(\<forall>shortcut \<in> {deleteShortcut_0, deleteShortcut_1}.
      (\<exists>rest. effects (snd (callback shortcut e)) = effects e @ PreventDefault # rest) \<and>
      (gestureInProgress e \<longrightarrow>
         callback shortcut e = (Inr False, e\<lparr>effects := effects e @ [PreventDefault]\<rparr>)) \<and>
      (\<forall>s. \<not> gestureInProgress e \<and> selected e = Some s \<longrightarrow>
         callback shortcut e =
           (Inr True, e\<lparr>effects := effects e @ [PreventDefault, CheckAndDelete s]\<rparr>)))"
  by (auto simp add: deleteShortcut_0_def deleteShortcut_1_def perform_def Let_def
      split: option.splits)

theorem delete_prevents_default_first_witness:
  "callback deleteShortcut_0 (demoEditor\<lparr>gestureInProgress := True\<rparr>) =
     (Inr False, demoEditor\<lparr>gestureInProgress := True, effects := [PreventDefault]\<rparr>) \<and>
   callback deleteShortcut_1 demoEditor =
     (Inr True, demoEditor\<lparr>effects :=
        [PreventDefault,
         CheckAndDelete \<lparr>deletable = True, movable = True, isBlockSvg = True, inFlyout = False\<rparr>]\<rparr>)"
  using delete_prevents_default_first [of "demoEditor\<lparr>gestureInProgress := True\<rparr>"]
    delete_prevents_default_first [of demoEditor]
  by (simp add: demoEditor_def)

text \<open>
  Claim C10. The two files register the same seven records, in the same order, under the
  names escape, delete, copy, cut, paste, undo and redo: record by record the key chords
  are the same, the preconditions agree on every input, and the callbacks have the same
  effects and results.
\<close>

theorem default_shortcuts_equivalent:
  "registerDefaultShortcuts_0 createSerializedKey registry =
     registerDefaultShortcuts_1 createSerializedKey registry \<and>
   map name (registerDefaultShortcuts_0 createSerializedKey []) =
     [''escape'', ''delete'', ''copy'', ''cut'', ''paste'', ''undo'', ''redo''] \<and>
   list_all2
     (\<lambda>a b. name a = name b \<and> set (keyCodes a) = set (keyCodes b) \<and>
            (\<forall>e. preconditionFn a e = preconditionFn b e) \<and>
            (\<forall>e. callback a e = callback b e))
     (registerDefaultShortcuts_0 createSerializedKey [])
     (registerDefaultShortcuts_1 createSerializedKey [])"
proof -
  have eq: "\<And>r. registerDefaultShortcuts_0 createSerializedKey r =
     registerDefaultShortcuts_1 createSerializedKey r"
    by (simp add: shortcut_defs Let_def)
  have names: "map name (registerDefaultShortcuts_0 createSerializedKey []) =
     [''escape'', ''delete'', ''copy'', ''cut'', ''paste'', ''undo'', ''redo'']"
    by (simp add: shortcut_defs Let_def Names_Escape_def Names_Delete_def Names_Copy_def
        Names_Cut_def Names_Paste_def Names_Undo_def Names_Redo_def)
  have "list_all2
     (\<lambda>a b. name a = name b \<and> set (keyCodes a) = set (keyCodes b) \<and>
            (\<forall>e. preconditionFn a e = preconditionFn b e) \<and>
            (\<forall>e. callback a e = callback b e))
     (registerDefaultShortcuts_0 createSerializedKey [])
     (registerDefaultShortcuts_0 createSerializedKey [])"
    by (simp add: list_all2_same)
  with eq names show ?thesis by simp
qed

theorem default_shortcuts_equivalent_witness:
  "map keyCodes (registerDefaultShortcuts_0 demoSerializedKey []) =
     map keyCodes (registerDefaultShortcuts_1 demoSerializedKey []) \<and>
   keyCodes (last (registerDefaultShortcuts_1 demoSerializedKey [])) =
     [SerializedKey ''Shift+Control+90'', SerializedKey ''Shift+Alt+90'',
      SerializedKey ''Shift+Meta+90'', SerializedKey ''Control+89'']"
proof -
  have "keyCodes (last (registerDefaultShortcuts_1 demoSerializedKey [])) =
     [SerializedKey ''Shift+Control+90'', SerializedKey ''Shift+Alt+90'',
      SerializedKey ''Shift+Meta+90'', SerializedKey ''Control+89'']"
    by (simp add: shortcut_defs Let_def demoSerializedKey_def)
  with default_shortcuts_equivalent [of demoSerializedKey "[]"] show ?thesis by simp
qed

section \<open>Properties of the colour resolution\<close>

text \<open>
  Claim C9, as stated, fails: a style name that no theme defines, in a workspace without a
  theme, yields the empty string and no warning.
\<close>

theorem style_without_theme_counterexample:
  "getColour' (demoCollaborators\<lparr>getTheme := None\<rparr>)
     \<lparr>categorystyle = Some ''no_such_style'', categoryStyle = None, colour = None\<rparr> demoCategory =
   ([], demoCategory) \<and>
   console demoCategory = []"
  by (simp add: getColour'_def getColourfromStyle'_def truthy_def demoCollaborators_def
      demoCategory_def Let_def)

text \<open>
  Claim C9, amended. Colour resolution is total (it never throws). It logs a warning and
  returns the empty string when both a colour and a style are supplied, when the style
  name is not defined by the workspace's theme, and when the decoded colour is not empty,
  not a number and not recognised by \<open>colourUtils.parse\<close>. In a workspace without a
  theme a style reference returns the empty string without a warning.
\<close>

theorem malformed_colour_fallback:
  "(truthy (colour category) \<and>
    truthy (case categorystyle category of None \<Rightarrow> categoryStyle category | Some s \<Rightarrow> Some s) \<longrightarrow>
      getColour' env category t = ([], warn (bothMessage (name' t)) t)) \<and>
   (\<forall>n theme.
      \<not> truthy (colour category) \<and>
      (case categorystyle category of None \<Rightarrow> categoryStyle category | Some s \<Rightarrow> Some s) = Some n \<and>
      n \<noteq> [] \<and> getTheme env = Some theme \<and> map_of (categoryStyles theme) n = None \<longrightarrow>
      getColour' env category t = ([], warn (styleMessage n) t)) \<and>
   (\<forall>v color.
      colour category = Some v \<and> v \<noteq> [] \<and>
      \<not> truthy (case categorystyle category of None \<Rightarrow> categoryStyle category | Some s \<Rightarrow> Some s) \<and>
      replaceMessageReferences env v = Some color \<and> color \<noteq> [] \<and>
      Number env color = None \<and> \<not> truthy (parse env color) \<longrightarrow>
      getColour' env category t = ([], warn (colourMessage (name' t) color) t)) \<and>
   (\<forall>n.
      \<not> truthy (colour category) \<and>
      (case categorystyle category of None \<Rightarrow> categoryStyle category | Some s \<Rightarrow> Some s) = Some n \<and>
      getTheme env = None \<longrightarrow>
      getColour' env category t = ([], t))"
  by (auto simp add: getColour'_def getColourfromStyle'_def parseColour'_def truthy_def Let_def
      split: option.splits)

theorem malformed_colour_fallback_witness:
  "getColour' demoCollaborators
     \<lparr>categorystyle = Some ''logic_category'', categoryStyle = None, colour = Some ''210''\<rparr>
     demoCategory = ([], demoCategory\<lparr>console := [bothMessage ''Logic'']\<rparr>) \<and>
   getColour' demoCollaborators
     \<lparr>categorystyle = None, categoryStyle = Some ''no_such_style'', colour = None\<rparr>
     demoCategory = ([], demoCategory\<lparr>console := [styleMessage ''no_such_style'']\<rparr>) \<and>
   getColour' demoCollaborators
     \<lparr>categorystyle = None, categoryStyle = None, colour = Some ''reddish''\<rparr>
     demoCategory = ([], demoCategory\<lparr>console := [colourMessage ''Logic'' ''reddish'']\<rparr>) \<and>
   getColour' (demoCollaborators\<lparr>getTheme := None\<rparr>)
     \<lparr>categorystyle = Some ''no_such_style'', categoryStyle = None, colour = None\<rparr>
     demoCategory = ([], demoCategory)"
  using
    malformed_colour_fallback [of
      "\<lparr>categorystyle = Some ''logic_category'', categoryStyle = None, colour = Some ''210''\<rparr>"
      demoCollaborators demoCategory]
    malformed_colour_fallback [of
      "\<lparr>categorystyle = None, categoryStyle = Some ''no_such_style'', colour = None\<rparr>"
      demoCollaborators demoCategory]
    malformed_colour_fallback [of
      "\<lparr>categorystyle = None, categoryStyle = None, colour = Some ''reddish''\<rparr>"
      demoCollaborators demoCategory]
    malformed_colour_fallback [of
      "\<lparr>categorystyle = Some ''no_such_style'', categoryStyle = None, colour = None\<rparr>"
      "demoCollaborators\<lparr>getTheme := None\<rparr>" demoCategory]
  by (simp add: truthy_def demoCollaborators_def demoCategory_def warn_def)

end
